theory Spec2Isabelle
  imports Complex_Main
begin

section \<open>Python values shared by both generators\<close>

text \<open>
  The two scripts \<^verbatim>\<open>generate_shipments_csv.py\<close> and \<^verbatim>\<open>generate_vehicles_csv.py\<close>
  build a list of row dictionaries and hand it to \<^verbatim>\<open>csv.DictWriter\<close>. Python's
  unbounded \<^verbatim>\<open>int\<close> is \<^typ>\<open>int\<close>; a \<^verbatim>\<open>float\<close> is read as the real number it
  denotes, with exact arithmetic (the rounding of IEEE doubles is not part of the model);
  a \<^verbatim>\<open>str\<close> is a \<^typ>\<open>string\<close>; a raised exception is the \<open>Inl\<close> branch of a sum.
\<close>

datatype py_error = ValueError | OverflowError | ZeroDivisionError

text \<open>\<^verbatim>\<open>str(n)\<close> for an \<^verbatim>\<open>int\<close>: decimal digits, a leading minus sign when negative.\<close>

definition digit_char :: "nat \<Rightarrow> char" where
  "digit_char d = ''0123456789'' ! d"

fun str_nat :: "nat \<Rightarrow> string" where
  "str_nat n = (if n < 10 then [digit_char n] else str_nat (n div 10) @ [digit_char (n mod 10)])"

declare str_nat.simps [simp del]

definition str_int :: "int \<Rightarrow> string" where
  "str_int i = (if i < 0 then CHR ''-'' # str_nat (nat (- i)) else str_nat (nat i))"

text \<open>
  A row is a Python \<^verbatim>\<open>dict\<close> from column name to cell text; the association list keeps
  the insertion order of the dict literal.
\<close>

type_synonym row = "(string \<times> string) list"

subsection \<open>The CSV writer\<close>

text \<open>
  \<^verbatim>\<open>csv.DictWriter(csvfile, fieldnames=headers)\<close> with the default \<^verbatim>\<open>excel\<close> dialect:
  delimiter comma, quote character \<^verbatim>\<open>"\<close>, minimal quoting with doubled quotes, line
  terminator CR LF (the file is opened with \<^verbatim>\<open>newline=''\<close>, so the terminator is written
  as it is). A key of a row that is not a field name raises \<^verbatim>\<open>ValueError\<close>; a missing key
  is written as the empty string.
\<close>

definition csv_special :: "char \<Rightarrow> bool" where
  "csv_special c \<longleftrightarrow> c = CHR '','' \<or> c = CHR 0x22 \<or> c = CHR 0x0D \<or> c = CHR 0x0A"

fun csv_escape :: "string \<Rightarrow> string" where
  "csv_escape [] = []"
| "csv_escape (c # cs) = (if c = CHR 0x22 then CHR 0x22 # CHR 0x22 # csv_escape cs else c # csv_escape cs)"

definition csv_field :: "string \<Rightarrow> string" where
  "csv_field s = (if list_ex csv_special s then CHR 0x22 # csv_escape s @ [CHR 0x22] else s)"

fun csv_join :: "string list \<Rightarrow> string" where
  "csv_join [] = []"
| "csv_join [f] = csv_field f"
| "csv_join (f # g # fs) = csv_field f @ CHR '','' # csv_join (g # fs)"

definition writerow :: "string list \<Rightarrow> string" where
  "writerow fields =
     (if fields = [[]] then [CHR 0x22, CHR 0x22, CHR 0x0D, CHR 0x0A]
      else csv_join fields @ [CHR 0x0D, CHR 0x0A])"

definition dict_to_list :: "string list \<Rightarrow> row \<Rightarrow> py_error + string list" where
  "dict_to_list fieldnames r =
     (if list_ex (\<lambda>k. k \<notin> set fieldnames) (map fst r) then Inl ValueError
      else Inr (map (\<lambda>k. case map_of r k of Some v \<Rightarrow> v | None \<Rightarrow> []) fieldnames))"

fun writerows :: "string list \<Rightarrow> row list \<Rightarrow> py_error + string" where
  "writerows fieldnames [] = Inr []"
| "writerows fieldnames (r # rs) =
     (case dict_to_list fieldnames r of
        Inl e \<Rightarrow> Inl e
      | Inr fields \<Rightarrow>
          (case writerows fieldnames rs of
             Inl e \<Rightarrow> Inl e
           | Inr out \<Rightarrow> Inr (writerow fields @ out)))"

definition write_csv :: "string list \<Rightarrow> row list \<Rightarrow> py_error + string" where
  "write_csv fieldnames rows =
     (case writerows fieldnames rows of
        Inl e \<Rightarrow> Inl e
      | Inr out \<Rightarrow> Inr (writerow fieldnames @ out))"

section \<open>The vehicle generator\<close>

definition vehicle_headers :: "string list" where
  "vehicle_headers =
    [''label'', ''travelMode'', ''startWaypoint'', ''endWaypoint'', ''unloadingPolicy'',
     ''costPerHour'', ''costPerTraveledHour'', ''costPerKilometer'', ''fixedCost'',
     ''usedIfRouteIsEmpty'', ''travelDurationMultiple'',
     ''StartTimeWindowCostPerHourBeforeSoftStartTime'',
     ''StartTimeWindowCostPerHourAfterSoftEndTime'',
     ''startTimeWindowStartTime'', ''startTimeWindowSoftStartTime'',
     ''startTimeWindowEndTime'', ''startTimeWindowSoftEndTime'',
     ''EndTimeWindowCostPerHourBeforeSoftStartTime'',
     ''EndTimeWindowCostPerHourAfterSoftEndTime'',
     ''endTimeWindowStartTime'', ''endTimeWindowSoftStartTime'',
     ''endTimeWindowEndTime'', ''endTimeWindowSoftEndTime'',
     ''loadLimit1Type'', ''loadLimit1Value'', ''loadLimit2Type'', ''loadLimit2Value'',
     ''loadLimit3Type'', ''loadLimit3Value'', ''loadLimit4Type'', ''loadLimit4Value'']"

text \<open>
  The f-string \<^verbatim>\<open>f'{depot_lat}, {depot_lon}'\<close> formats two floats with \<^verbatim>\<open>str\<close>. The
  shortest-repr algorithm of the interpreter is not part of the repository: it is the
  parameter \<open>fstr\<close> of every function that formats a float.
\<close>

definition waypoint :: "(real \<Rightarrow> string) \<Rightarrow> real \<Rightarrow> real \<Rightarrow> string" where
  "waypoint fstr lat lon = fstr lat @ '', '' @ fstr lon"

text \<open>The dict literal of one loop iteration; \<open>i\<close> is the loop variable of \<^verbatim>\<open>range(num_vehicles)\<close>.\<close>

definition vehicle_row :: "string \<Rightarrow> string \<Rightarrow> int \<Rightarrow> nat \<Rightarrow> row" where
  "vehicle_row depot_waypoint use_if_empty_str capacity_pallets i =
    [(''label'', ''Vehicle - '' @ str_int (int i + 1)),
     (''travelMode'', ''DRIVING''),
     (''startWaypoint'', depot_waypoint),
     (''endWaypoint'', depot_waypoint),
     (''unloadingPolicy'', ''UNLOADING_POLICY_UNSPECIFIED''),
     (''costPerHour'', ''0''),
     (''costPerTraveledHour'', ''0''),
     (''costPerKilometer'', ''0''),
     (''fixedCost'', ''0''),
     (''usedIfRouteIsEmpty'', use_if_empty_str),
     (''travelDurationMultiple'', ''1''),
     (''StartTimeWindowCostPerHourBeforeSoftStartTime'', ''''),
     (''StartTimeWindowCostPerHourAfterSoftEndTime'', ''''),
     (''startTimeWindowStartTime'', ''''),
     (''startTimeWindowSoftStartTime'', ''''),
     (''startTimeWindowEndTime'', ''''),
     (''startTimeWindowSoftEndTime'', ''''),
     (''EndTimeWindowCostPerHourBeforeSoftStartTime'', ''''),
     (''EndTimeWindowCostPerHourAfterSoftEndTime'', ''''),
     (''endTimeWindowStartTime'', ''''),
     (''endTimeWindowSoftStartTime'', ''''),
     (''endTimeWindowEndTime'', ''''),
     (''endTimeWindowSoftEndTime'', ''''),
     (''loadLimit1Type'', ''pallets''),
     (''loadLimit1Value'', str_int capacity_pallets),
     (''loadLimit2Type'', ''''),
     (''loadLimit2Value'', ''''),
     (''loadLimit3Type'', ''''),
     (''loadLimit3Value'', ''''),
     (''loadLimit4Type'', ''''),
     (''loadLimit4Value'', '''')]"

text \<open>
  The rows built by the loop \<^verbatim>\<open>for i in range(num_vehicles)\<close>; a negative count gives an
  empty range.
\<close>

definition vehicle_rows :: "(real \<Rightarrow> string) \<Rightarrow> int \<Rightarrow> real \<Rightarrow> real \<Rightarrow> int \<Rightarrow> bool \<Rightarrow> row list" where
  "vehicle_rows fstr num_vehicles depot_lat depot_lon capacity_pallets use_if_empty =
    (let depot_waypoint = waypoint fstr depot_lat depot_lon;
         use_if_empty_str = (if use_if_empty then ''TRUE'' else ''FALSE'')
     in map (vehicle_row depot_waypoint use_if_empty_str capacity_pallets) [0 ..< nat num_vehicles])"

text \<open>The contents of the file that \<^verbatim>\<open>generate_vehicles_csv\<close> writes.\<close>

definition generate_vehicles_csv ::
  "(real \<Rightarrow> string) \<Rightarrow> int \<Rightarrow> real \<Rightarrow> real \<Rightarrow> int \<Rightarrow> bool \<Rightarrow> py_error + string" where
  "generate_vehicles_csv fstr num_vehicles depot_lat depot_lon capacity_pallets use_if_empty =
     write_csv vehicle_headers
       (vehicle_rows fstr num_vehicles depot_lat depot_lon capacity_pallets use_if_empty)"

section \<open>The shipment generator\<close>

subsection \<open>The library\<close>

text \<open>
  The library functions the scripts call and the repository does not define. The
  process-global generator of the \<^verbatim>\<open>random\<close> module is given by its three primitives:
  \<^verbatim>\<open>random.seed(n)\<close> gives a state, \<^verbatim>\<open>random.random()\<close> draws a float and
  \<^verbatim>\<open>_randbelow(n)\<close> draws an integer, each returning the next state; the functions the
  scripts call are defined from them as the library defines them. \<^verbatim>\<open>math.radians\<close> and
  \<^verbatim>\<open>math.cos\<close> are the platform's: they return doubles, which is decisive at the poles.
  All other arithmetic on floats is exact arithmetic on \<^typ>\<open>real\<close>.
\<close>

record 'g platform =
  rnd_seed :: "int \<Rightarrow> 'g"
  rnd_random :: "'g \<Rightarrow> real \<times> 'g"
  rnd_randbelow :: "int \<Rightarrow> 'g \<Rightarrow> int \<times> 'g"
  math_radians :: "real \<Rightarrow> real"
  math_cos :: "real \<Rightarrow> real"

text \<open>What the library promises of the primitives: a float in \<open>[0, 1)\<close>, an integer in \<open>[0, n)\<close>.\<close>

definition rnd_in_range :: "'g platform \<Rightarrow> bool" where
  "rnd_in_range R \<longleftrightarrow>
     (\<forall>g. 0 \<le> fst (rnd_random R g) \<and> fst (rnd_random R g) < 1) \<and>
     (\<forall>n g. 0 < n \<longrightarrow> 0 \<le> fst (rnd_randbelow R n g) \<and> fst (rnd_randbelow R n g) < n)"

text \<open>\<^verbatim>\<open>random.uniform(a, b)\<close> is \<^verbatim>\<open>a + (b - a) * self.random()\<close>.\<close>

definition uniform :: "'g platform \<Rightarrow> real \<Rightarrow> real \<Rightarrow> 'g \<Rightarrow> real \<times> 'g" where
  "uniform R a b g = (case rnd_random R g of (u, g') \<Rightarrow> (a + (b - a) * u, g'))"

text \<open>
  \<^verbatim>\<open>random.randint(a, b)\<close> is \<^verbatim>\<open>randrange(a, b + 1)\<close>: an empty range raises
  \<^verbatim>\<open>ValueError\<close>, otherwise the result is \<^verbatim>\<open>a + _randbelow(b + 1 - a)\<close>.
\<close>

definition randint :: "'g platform \<Rightarrow> int \<Rightarrow> int \<Rightarrow> 'g \<Rightarrow> py_error + int \<times> 'g" where
  "randint R a b g =
     (if b + 1 - a > 0
      then (case rnd_randbelow R (b + 1 - a) g of (k, g') \<Rightarrow> Inr (a + k, g'))
      else Inl ValueError)"

subsection \<open>Coordinates\<close>

text \<open>
  \<^verbatim>\<open>round(x, ndigits)\<close> on a float: the nearest multiple of \<open>10 ^ - ndigits\<close>, a tie going
  to the even one.
\<close>

definition round_half_even :: "real \<Rightarrow> int" where
  "round_half_even x =
     (let f = \<lfloor>x\<rfloor>; r = x - of_int f
      in if r < 1 / 2 then f else if 1 / 2 < r then f + 1 else if even f then f else f + 1)"

definition py_round :: "real \<Rightarrow> nat \<Rightarrow> real" where
  "py_round x ndigits = of_int (round_half_even (x * 10 ^ ndigits)) / 10 ^ ndigits"

text \<open>Degrees to radians in exact arithmetic, and a library that computes exactly.\<close>

definition radians :: "real \<Rightarrow> real" where
  "radians x = x * pi / 180"

definition exact_math :: "'g platform \<Rightarrow> bool" where
  "exact_math R \<longleftrightarrow> math_radians R = radians \<and> math_cos R = cos"

text \<open>
  The two offsets of \<^verbatim>\<open>generate_random_coords\<close>. Python raises \<^verbatim>\<open>ZeroDivisionError\<close>
  on a float division by zero.
\<close>

definition lat_offset :: "real \<Rightarrow> real" where
  "lat_offset square_size_km = (square_size_km / 2) / 111"

definition lon_divisor :: "'g platform \<Rightarrow> real \<Rightarrow> real" where
  "lon_divisor R center_lat = 111 * \<bar>math_cos R (math_radians R center_lat)\<bar>"

definition lon_offset :: "'g platform \<Rightarrow> real \<Rightarrow> real \<Rightarrow> real" where
  "lon_offset R center_lat square_size_km = (square_size_km / 2) / lon_divisor R center_lat"

text \<open>The point before \<^verbatim>\<open>round\<close>, and the function itself, which rounds it.\<close>

definition sample_coords ::
  "'g platform \<Rightarrow> real \<Rightarrow> real \<Rightarrow> real \<Rightarrow> 'g \<Rightarrow> py_error + (real \<times> real) \<times> 'g" where
  "sample_coords R center_lat center_lon square_size_km g =
     (if lon_divisor R center_lat = 0 then Inl ZeroDivisionError
      else
        (case uniform R (- lat_offset square_size_km) (lat_offset square_size_km) g of
           (x, g1) \<Rightarrow>
             (case uniform R (- lon_offset R center_lat square_size_km)
                     (lon_offset R center_lat square_size_km) g1 of
                (y, g2) \<Rightarrow> Inr ((center_lat + x, center_lon + y), g2))))"

definition generate_random_coords ::
  "'g platform \<Rightarrow> real \<Rightarrow> real \<Rightarrow> real \<Rightarrow> 'g \<Rightarrow> py_error + (real \<times> real) \<times> 'g" where
  "generate_random_coords R center_lat center_lon square_size_km g =
     (case sample_coords R center_lat center_lon square_size_km g of
        Inl e \<Rightarrow> Inl e
      | Inr ((lat, lon), g') \<Rightarrow> Inr ((py_round lat 8, py_round lon 8), g'))"

subsection \<open>Dates and times\<close>

text \<open>
  A naive \<^verbatim>\<open>datetime\<close>. The date is kept as its proleptic Gregorian ordinal
  (\<^verbatim>\<open>date.toordinal()\<close>, day 1 is 0001-01-01), which is how the library itself adds a
  \<^verbatim>\<open>timedelta\<close>; year, month and day are computed from it when the value is formatted.
\<close>

record datetime =
  dt_ordinal :: int
  dt_hour :: int
  dt_minute :: int
  dt_second :: int
  dt_microsecond :: int

record timedelta =
  td_days :: int
  td_seconds :: int
  td_microseconds :: int

definition MAXORDINAL :: int where
  "MAXORDINAL = 3652059"

text \<open>The values \<^verbatim>\<open>datetime.now()\<close> can return.\<close>

definition valid_datetime :: "datetime \<Rightarrow> bool" where
  "valid_datetime d \<longleftrightarrow>
     1 \<le> dt_ordinal d \<and> dt_ordinal d \<le> MAXORDINAL \<and>
     0 \<le> dt_hour d \<and> dt_hour d \<le> 23 \<and>
     0 \<le> dt_minute d \<and> dt_minute d \<le> 59 \<and>
     0 \<le> dt_second d \<and> dt_second d \<le> 59 \<and>
     0 \<le> dt_microsecond d \<and> dt_microsecond d \<le> 999999"

text \<open>
  The \<^verbatim>\<open>timedelta\<close> constructor normalises to \<open>0 \<le> seconds < 86400\<close> and
  \<open>0 \<le> microseconds < 10^6\<close> and raises \<^verbatim>\<open>OverflowError\<close> beyond 999999999 days.
\<close>

definition mk_timedelta :: "int \<Rightarrow> int \<Rightarrow> int \<Rightarrow> py_error + timedelta" where
  "mk_timedelta days seconds microseconds =
     (let s = seconds + microseconds div 1000000;
          d = days + s div 86400
      in if \<bar>d\<bar> > 999999999 then Inl OverflowError
         else Inr \<lparr>td_days = d, td_seconds = s mod 86400,
                   td_microseconds = microseconds mod 1000000\<rparr>)"

text \<open>
  \<^verbatim>\<open>datetime.__add__\<close>: the datetime as a \<^verbatim>\<open>timedelta\<close> since day 0, plus the other one,
  split again into date and time; \<^verbatim>\<open>OverflowError\<close> outside years 1 to 9999.
\<close>

definition datetime_add :: "datetime \<Rightarrow> timedelta \<Rightarrow> py_error + datetime" where
  "datetime_add d t =
     (case mk_timedelta (dt_ordinal d + td_days t)
             (dt_hour d * 3600 + dt_minute d * 60 + dt_second d + td_seconds t)
             (dt_microsecond d + td_microseconds t) of
        Inl e \<Rightarrow> Inl e
      | Inr delta \<Rightarrow>
          if 0 < td_days delta \<and> td_days delta \<le> MAXORDINAL
          then Inr \<lparr>dt_ordinal = td_days delta,
                    dt_hour = td_seconds delta div 3600,
                    dt_minute = (td_seconds delta mod 3600) div 60,
                    dt_second = (td_seconds delta mod 3600) mod 60,
                    dt_microsecond = td_microseconds delta\<rparr>
          else Inl OverflowError)"

text \<open>
  \<^verbatim>\<open>d.replace(hour=h, minute=0, second=0, microsecond=0)\<close>: the new fields are checked,
  an hour outside 0..23 raises \<^verbatim>\<open>ValueError\<close>.
\<close>

definition replace_hour_00 :: "datetime \<Rightarrow> int \<Rightarrow> py_error + datetime" where
  "replace_hour_00 d h =
     (if 0 \<le> h \<and> h \<le> 23
      then Inr (d\<lparr>dt_hour := h, dt_minute := 0, dt_second := 0, dt_microsecond := 0\<rparr>)
      else Inl ValueError)"

text \<open>Year, month and day of an ordinal, by the library's \<^verbatim>\<open>_ord2ymd\<close>.\<close>

definition DAYS_IN_MONTH :: "int list" where
  "DAYS_IN_MONTH = [-1, 31, 28, 31, 30, 31, 30, 31, 31, 30, 31, 30, 31]"

definition DAYS_BEFORE_MONTH :: "int list" where
  "DAYS_BEFORE_MONTH = [-1, 0, 31, 59, 90, 120, 151, 181, 212, 243, 273, 304, 334]"

definition month_of_yday :: "bool \<Rightarrow> int \<Rightarrow> int \<times> int" where
  "month_of_yday leapyear n =
     (let month = (n + 50) div 32;
          preceding = DAYS_BEFORE_MONTH ! nat month + (if month > 2 \<and> leapyear then 1 else 0)
      in if preceding > n
         then (month - 1,
               n - (preceding - (DAYS_IN_MONTH ! nat (month - 1)
                                  + (if month - 1 = 2 \<and> leapyear then 1 else 0))) + 1)
         else (month, n - preceding + 1))"

definition ord2ymd :: "int \<Rightarrow> int \<times> int \<times> int" where
  "ord2ymd ordinal =
     (let n = ordinal - 1;
          n400 = n div 146097; n = n mod 146097;
          n100 = n div 36524; n = n mod 36524;
          n4 = n div 1461; n = n mod 1461;
          n1 = n div 365; n = n mod 365;
          year = n400 * 400 + 1 + n100 * 100 + n4 * 4 + n1
      in if n1 = 4 \<or> n100 = 4 then (year - 1, 12, 31)
         else (case month_of_yday (n1 = 3 \<and> (n4 \<noteq> 24 \<or> n100 = 3)) n of
                 (month, day) \<Rightarrow> (year, month, day)))"

text \<open>
  \<^verbatim>\<open>strftime('%Y-%m-%dT%H:%M:%S.000Z')\<close>: the fields of the value as they are, zero-padded
  decimals (four digits for the year, two for the others), then the literal text.
\<close>

definition zfill :: "nat \<Rightarrow> string \<Rightarrow> string" where
  "zfill w s = replicate (w - length s) CHR ''0'' @ s"

definition strftime_iso :: "datetime \<Rightarrow> string" where
  "strftime_iso d =
     (case ord2ymd (dt_ordinal d) of
        (y, m, dd) \<Rightarrow>
          zfill 4 (str_int y) @ ''-'' @ zfill 2 (str_int m) @ ''-'' @ zfill 2 (str_int dd)
          @ ''T'' @ zfill 2 (str_int (dt_hour d)) @ '':'' @ zfill 2 (str_int (dt_minute d))
          @ '':'' @ zfill 2 (str_int (dt_second d)) @ ''.000Z'')"

subsection \<open>Time windows\<close>

text \<open>
  The hour of the window: the fixed hour when one is given, otherwise
  \<^verbatim>\<open>random.randint(start_hour, end_hour - 1)\<close>.
\<close>

definition selected_hour ::
  "'g platform \<Rightarrow> int \<Rightarrow> int \<Rightarrow> int option \<Rightarrow> 'g \<Rightarrow> py_error + int \<times> 'g" where
  "selected_hour R start_hour end_hour fixed_hour g =
     (case fixed_hour of
        Some h \<Rightarrow> Inr (h, g)
      | None \<Rightarrow> randint R start_hour (end_hour - 1) g)"

text \<open>
  The two datetimes \<^verbatim>\<open>start_time\<close> and \<^verbatim>\<open>end_time\<close> of
  \<^verbatim>\<open>generate_random_time_window\<close>; \<open>now\<close> is what \<^verbatim>\<open>datetime.now()\<close> returns in this call.
  The parameter \<^verbatim>\<open>fixed_minute\<close> is accepted and never read.
\<close>

definition time_window_bounds ::
  "'g platform \<Rightarrow> datetime \<Rightarrow> int \<Rightarrow> int \<Rightarrow> int \<Rightarrow> int option \<Rightarrow> int \<Rightarrow> 'g
     \<Rightarrow> py_error + (datetime \<times> datetime) \<times> 'g" where
  "time_window_bounds R now start_hour end_hour window_duration_minutes fixed_hour fixed_minute g =
     (case selected_hour R start_hour end_hour fixed_hour g of
        Inl e \<Rightarrow> Inl e
      | Inr (random_hour, g') \<Rightarrow>
          (case mk_timedelta 1 0 0 of
             Inl e \<Rightarrow> Inl e
           | Inr one_day \<Rightarrow>
               (case datetime_add now one_day of
                  Inl e \<Rightarrow> Inl e
                | Inr tomorrow \<Rightarrow>
                    (case replace_hour_00 tomorrow random_hour of
                       Inl e \<Rightarrow> Inl e
                     | Inr base_date \<Rightarrow>
                         (case mk_timedelta 0 (window_duration_minutes * 60) 0 of
                            Inl e \<Rightarrow> Inl e
                          | Inr duration \<Rightarrow>
                              (case datetime_add base_date duration of
                                 Inl e \<Rightarrow> Inl e
                               | Inr end_time \<Rightarrow> Inr ((base_date, end_time), g')))))))"

definition generate_random_time_window ::
  "'g platform \<Rightarrow> datetime \<Rightarrow> int \<Rightarrow> int \<Rightarrow> int \<Rightarrow> int option \<Rightarrow> int \<Rightarrow> 'g
     \<Rightarrow> py_error + (string \<times> string \<times> string \<times> string) \<times> 'g" where
  "generate_random_time_window R now start_hour end_hour window_duration_minutes fixed_hour
       fixed_minute g =
     (case time_window_bounds R now start_hour end_hour window_duration_minutes fixed_hour
             fixed_minute g of
        Inl e \<Rightarrow> Inl e
      | Inr ((start_time, end_time), g') \<Rightarrow>
          (let start_iso = strftime_iso start_time;
               end_iso = strftime_iso end_time
           in Inr ((start_iso, start_iso, end_iso, end_iso), g')))"

subsection \<open>Rows and the file\<close>

record shipment_args =
  num_shipments :: int
  depot_lat :: real
  depot_lon :: real
  delivery_center_lat :: real
  delivery_center_lon :: real
  square_size_km :: real
  delivery_duration_sec :: int
  penalty_cost :: int
  penalty_per_hour :: int
  max_pallets :: int
  seed :: "int option"
  pickup_hour :: "int option"
  pickup_minute :: int

definition shipment_headers :: "string list" where
  "shipment_headers =
    [''label'', ''penaltyCost'', ''pickupArrivalWaypoint'', ''pickupDuration'', ''pickupCost'',
     ''pickupStartTime'', ''pickupSoftStartTime'', ''pickupEndTime'', ''pickupSoftEndTime'',
     ''pickupCostPerHourBeforeSoftStartTime'', ''pickupCostPerHourAfterSoftStartTime'',
     ''pickupCostPerHourAfterSoftEndTime'',
     ''deliveryArrivalWaypoint'', ''deliveryDuration'', ''deliveryCost'',
     ''deliveryStartTime'', ''deliverySoftStartTime'', ''deliveryEndTime'',
     ''deliverySoftEndTime'',
     ''deliveryCostPerHourBeforeSoftStartTime'', ''deliveryCostPerHourAfterSoftEndTime'',
     ''loadDemand1Type'', ''loadDemand1Value'', ''loadDemand2Type'', ''loadDemand2Value'',
     ''loadDemand3Type'', ''loadDemand3Value'', ''loadDemand4Type'', ''loadDemand4Value'',
     ''allowedVehicleIndices'']"

text \<open>
  The dict literal of one iteration: \<open>i\<close> is the loop variable, \<open>(delivery_lat, delivery_lon)\<close>
  the sampled point, the four strings the time window and \<open>num_pallets\<close> the drawn load.
\<close>

definition shipment_row ::
  "(real \<Rightarrow> string) \<Rightarrow> shipment_args \<Rightarrow> nat \<Rightarrow> real \<times> real
     \<Rightarrow> string \<times> string \<times> string \<times> string \<Rightarrow> int \<Rightarrow> row" where
  "shipment_row fstr a i coords tw num_pallets =
    (case coords of (delivery_lat, delivery_lon) \<Rightarrow>
     case tw of (start_time, soft_start, end_time, soft_end) \<Rightarrow>
    [(''label'', ''Order - '' @ str_int (int i + 1)),
     (''penaltyCost'', str_int (penalty_cost a)),
     (''pickupArrivalWaypoint'', waypoint fstr (depot_lat a) (depot_lon a)),
     (''pickupDuration'', ''0''),
     (''pickupCost'', ''''),
     (''pickupStartTime'', ''''),
     (''pickupSoftStartTime'', ''''),
     (''pickupEndTime'', ''''),
     (''pickupSoftEndTime'', ''''),
     (''pickupCostPerHourBeforeSoftStartTime'', ''''),
     (''pickupCostPerHourAfterSoftStartTime'', ''''),
     (''pickupCostPerHourAfterSoftEndTime'', ''''),
     (''deliveryArrivalWaypoint'', waypoint fstr delivery_lat delivery_lon),
     (''deliveryDuration'', str_int (delivery_duration_sec a)),
     (''deliveryCost'', ''''),
     (''deliveryStartTime'', start_time),
     (''deliverySoftStartTime'', soft_start),
     (''deliveryEndTime'', end_time),
     (''deliverySoftEndTime'', soft_end),
     (''deliveryCostPerHourBeforeSoftStartTime'', str_int (penalty_per_hour a)),
     (''deliveryCostPerHourAfterSoftEndTime'', str_int (penalty_per_hour a)),
     (''loadDemand1Type'', ''pallets''),
     (''loadDemand1Value'', str_int num_pallets),
     (''loadDemand2Type'', ''''),
     (''loadDemand2Value'', ''''),
     (''loadDemand3Type'', ''''),
     (''loadDemand3Value'', ''''),
     (''loadDemand4Type'', ''''),
     (''loadDemand4Value'', ''''),
     (''allowedVehicleIndices'', '''')])"

text \<open>
  The loop \<^verbatim>\<open>for i in range(num_shipments)\<close>, over the remaining indices and the state of
  the random source. Each iteration samples a point (two draws), builds a time window with
  the defaults \<^verbatim>\<open>start_hour=6, end_hour=22, window_duration_minutes=60\<close> (one reading of
  the clock, and one draw when no pickup hour is fixed) and draws the pallets. \<open>clock i\<close> is
  what \<^verbatim>\<open>datetime.now()\<close> returns in iteration \<open>i\<close>. An exception in any iteration ends
  the run before the file is opened.
\<close>

fun shipment_rows ::
  "'g platform \<Rightarrow> (nat \<Rightarrow> datetime) \<Rightarrow> (real \<Rightarrow> string) \<Rightarrow> shipment_args \<Rightarrow> nat list \<Rightarrow> 'g
     \<Rightarrow> py_error + row list" where
  "shipment_rows R clock fstr a [] g = Inr []"
| "shipment_rows R clock fstr a (i # is) g =
     (case generate_random_coords R (delivery_center_lat a) (delivery_center_lon a)
             (square_size_km a) g of
        Inl e \<Rightarrow> Inl e
      | Inr (coords, g1) \<Rightarrow>
          (case generate_random_time_window R (clock i) 6 22 60 (pickup_hour a)
                  (pickup_minute a) g1 of
             Inl e \<Rightarrow> Inl e
           | Inr (tw, g2) \<Rightarrow>
               (case randint R 1 (max_pallets a) g2 of
                  Inl e \<Rightarrow> Inl e
                | Inr (num_pallets, g3) \<Rightarrow>
                    (case shipment_rows R clock fstr a is g3 of
                       Inl e \<Rightarrow> Inl e
                     | Inr rows \<Rightarrow> Inr (shipment_row fstr a i coords tw num_pallets # rows)))))"

text \<open>
  The rows of a run: \<open>g0\<close> is the state of the process-global generator when the function
  is entered; \<^verbatim>\<open>random.seed(seed)\<close> replaces it when a seed is given.
\<close>

definition generate_shipments_rows ::
  "'g platform \<Rightarrow> (nat \<Rightarrow> datetime) \<Rightarrow> (real \<Rightarrow> string) \<Rightarrow> shipment_args \<Rightarrow> 'g
     \<Rightarrow> py_error + row list" where
  "generate_shipments_rows R clock fstr a g0 =
     (let g = (case seed a of Some s \<Rightarrow> rnd_seed R s | None \<Rightarrow> g0)
      in shipment_rows R clock fstr a [0 ..< nat (num_shipments a)] g)"

text \<open>The contents of the file that \<^verbatim>\<open>generate_shipments_csv\<close> writes.\<close>

definition generate_shipments_csv ::
  "'g platform \<Rightarrow> (nat \<Rightarrow> datetime) \<Rightarrow> (real \<Rightarrow> string) \<Rightarrow> shipment_args \<Rightarrow> 'g
     \<Rightarrow> py_error + string" where
  "generate_shipments_csv R clock fstr a g0 =
     (case generate_shipments_rows R clock fstr a g0 of
        Inl e \<Rightarrow> Inl e
      | Inr rows \<Rightarrow> write_csv shipment_headers rows)"

section \<open>Reading a CSV file back\<close>

text \<open>
  Counting what a CSV reader sees: a quote character toggles the quoted state (a doubled
  quote toggles it twice), a comma outside quotes ends a field and a line feed outside
  quotes ends a record.
\<close>

fun csv_count :: "char \<Rightarrow> bool \<Rightarrow> string \<Rightarrow> nat" where
  "csv_count sep quoted [] = 0"
| "csv_count sep quoted (c # cs) =
     (if c = CHR 0x22 then csv_count sep (\<not> quoted) cs
      else if c = sep \<and> \<not> quoted then Suc (csv_count sep quoted cs)
      else csv_count sep quoted cs)"

definition csv_records :: "string \<Rightarrow> nat" where
  "csv_records out = csv_count (CHR 0x0A) False out"

text \<open>The records of a file, each without its line terminator.\<close>

fun csv_split :: "bool \<Rightarrow> string \<Rightarrow> string \<Rightarrow> string list" where
  "csv_split quoted acc [] = (if acc = [] then [] else [rev acc])"
| "csv_split quoted acc (c # cs) =
     (if c = CHR 0x22 then csv_split (\<not> quoted) (c # acc) cs
      else if c = CHR 0x0A \<and> \<not> quoted then rev acc # csv_split quoted [] cs
      else if c = CHR 0x0D \<and> \<not> quoted then csv_split quoted acc cs
      else csv_split quoted (c # acc) cs)"

definition csv_lines :: "string \<Rightarrow> string list" where
  "csv_lines out = csv_split False [] out"

definition csv_field_count :: "string \<Rightarrow> nat" where
  "csv_field_count line = Suc (csv_count (CHR '','') False line)"

section \<open>A test double for the platform\<close>

text \<open>
  A small deterministic library with which the functions above can be run on concrete
  inputs: the mathematical functions are exact, the state of the generator is a counter, \<^verbatim>\<open>random()\<close> returns
  \<open>(g mod 20) / 20\<close> and \<^verbatim>\<open>_randbelow(n)\<close> returns \<open>g mod n\<close>.
\<close>

definition test_source :: "nat platform" where
  "test_source =
     \<lparr>rnd_seed = (\<lambda>s. nat \<bar>s\<bar>),
      rnd_random = (\<lambda>g. (real (g mod 20) / 20, Suc g)),
      rnd_randbelow = (\<lambda>n g. (int g mod n, Suc g)),
      math_radians = radians,
      math_cos = cos\<rparr>"

text \<open>
  The formatter prints decimal notation with up to eight decimals and no trailing zeros,
  which is what \<^verbatim>\<open>str\<close> prints for the floats of the test runs.
\<close>

definition test_fstr :: "real \<Rightarrow> string" where
  "test_fstr x =
     (let n = nat (round_half_even (\<bar>x\<bar> * 10 ^ 8));
          decimals = rev (dropWhile (\<lambda>c. c = CHR ''0'') (rev (zfill 8 (str_nat (n mod 10 ^ 8)))))
      in (if x < 0 then ''-'' else []) @ str_nat (n div 10 ^ 8) @ ''.''
         @ (if decimals = [] then ''0'' else decimals))"

definition test_clock :: "nat \<Rightarrow> datetime" where
  "test_clock i =
     \<lparr>dt_ordinal = 739924, dt_hour = 23, dt_minute = 59, dt_second = 30,
      dt_microsecond = int (i mod 1000)\<rparr>"

definition test_clock_next_day :: "nat \<Rightarrow> datetime" where
  "test_clock_next_day i =
     \<lparr>dt_ordinal = 739925, dt_hour = 0, dt_minute = 0, dt_second = 30,
      dt_microsecond = int (i mod 1000)\<rparr>"

text \<open>A reading on the same day as \<open>test_clock\<close>, at another time.\<close>

definition test_clock_morning :: "nat \<Rightarrow> datetime" where
  "test_clock_morning i =
     \<lparr>dt_ordinal = 739924, dt_hour = 9, dt_minute = 15, dt_second = 0,
      dt_microsecond = int (i mod 1000)\<rparr>"

definition test_args :: shipment_args where
  "test_args =
     \<lparr>num_shipments = 2, depot_lat = 44.5279615, depot_lon = 26.1798147,
      delivery_center_lat = 0, delivery_center_lon = 26.0999251,
      square_size_km = 20, delivery_duration_sec = 600, penalty_cost = 200,
      penalty_per_hour = 1000, max_pallets = 10, seed = Some 42, pickup_hour = Some 8,
      pickup_minute = 0\<rparr>"

text \<open>A source whose \<^verbatim>\<open>random()\<close> always returns \<open>1 - 2^-24\<close>, a double just below 1.\<close>

definition high_source :: "nat platform" where
  "high_source =
     \<lparr>rnd_seed = (\<lambda>s. nat \<bar>s\<bar>),
      rnd_random = (\<lambda>g. (16777215 / 16777216, Suc g)),
      rnd_randbelow = (\<lambda>n g. (0, Suc g)),
      math_radians = radians,
      math_cos = cos\<rparr>"

section \<open>Notions used to state the properties\<close>

text \<open>The position of a datetime on the time line, in microseconds since the start of day 0.\<close>

definition datetime_micros :: "datetime \<Rightarrow> int" where
  "datetime_micros d =
     ((dt_ordinal d * 86400 + dt_hour d * 3600 + dt_minute d * 60 + dt_second d) * 1000000
      + dt_microsecond d)"

text \<open>
  A string matches a pattern when it has the pattern's length, a decimal digit wherever the
  pattern has \<open>#\<close> and the pattern's own character everywhere else.
\<close>

definition is_digit :: "char \<Rightarrow> bool" where
  "is_digit c \<longleftrightarrow> c \<in> set ''0123456789''"

fun matches :: "string \<Rightarrow> string \<Rightarrow> bool" where
  "matches [] [] = True"
| "matches (p # ps) (c # cs) = ((if p = CHR ''#'' then is_digit c else c = p) \<and> matches ps cs)"
| "matches _ _ = False"

section \<open>A library that computes in doubles\<close>

text \<open>
  IEEE 754 binary64, for magnitudes in the normal range: \<open>double_round x\<close> is the double
  nearest to \<open>x\<close> (53 significant bits, ties to even). \<^verbatim>\<open>math.radians(x)\<close> is the product
  \<^verbatim>\<open>x * degToRad\<close> rounded, where \<^verbatim>\<open>degToRad\<close> is the quotient of the double nearest to pi
  by 180, rounded; \<^verbatim>\<open>math.cos(x)\<close> is taken as the double nearest to the cosine of the
  double \<open>x\<close>.
\<close>

definition pow2 :: "int \<Rightarrow> real" where
  "pow2 e = (if 0 \<le> e then 2 ^ nat e else 1 / 2 ^ nat (- e))"

definition double_round :: "real \<Rightarrow> real" where
  "double_round x =
     (if x = 0 then 0
      else let e = \<lfloor>log 2 \<bar>x\<bar>\<rfloor> - 52
           in of_int (round_half_even (x / pow2 e)) * pow2 e)"

definition PI_DOUBLE :: real where
  "PI_DOUBLE = 884279719003555 / 2 ^ 48"

definition DEG_TO_RAD :: real where
  "DEG_TO_RAD = double_round (PI_DOUBLE / 180)"

definition double_source :: "nat platform" where
  "double_source =
     test_source\<lparr>math_radians := (\<lambda>x. double_round (x * DEG_TO_RAD)),
                 math_cos := (\<lambda>x. double_round (cos x))\<rparr>"

text \<open>The test run moved to the north pole.\<close>

definition polar_args :: shipment_args where
  "polar_args = test_args\<lparr>delivery_center_lat := 90\<rparr>"

text \<open>The double \<open>1.5707963267948966\<close>, which is what \<^verbatim>\<open>math.radians(90.0)\<close> returns.\<close>

definition HALF_PI_DOUBLE :: real where
  "HALF_PI_DOUBLE = 7074237752028440 / 2 ^ 52"

section \<open>Evaluating the test runs\<close>

text \<open>Conditional unfoldings of \<open>str_nat\<close>, so that it is only unfolded on numerals.\<close>

lemma str_nat_small: "n < 10 \<Longrightarrow> str_nat n = [digit_char n]"
  by (subst str_nat.simps) simp

lemma str_nat_large: "10 \<le> n \<Longrightarrow> str_nat n = str_nat (n div 10) @ [digit_char (n mod 10)]"
  by (subst str_nat.simps) simp

lemmas str_eval = str_int_def str_nat_small str_nat_large digit_char_def zfill_def

lemma rnd_in_range_test_source: "rnd_in_range test_source"
  by (simp add: rnd_in_range_def test_source_def)

lemma lon_divisor_0: "lon_divisor test_source 0 = 111"
  by (simp add: lon_divisor_def radians_def test_source_def)

lemma test_coords_42:
  "generate_random_coords test_source 0 26.0999251 20 (42::nat)
     = Inr ((-0.07207207, 26.03686204), 44)"
  unfolding generate_random_coords_def sample_coords_def lon_offset_def lon_divisor_0
  by (simp add: uniform_def test_source_def lat_offset_def py_round_def round_half_even_def
      Let_def)

lemma test_coords_45:
  "generate_random_coords test_source 0 26.0999251 20 (45::nat)
     = Inr ((-0.04504505, 26.06388906), 47)"
  unfolding generate_random_coords_def sample_coords_def lon_offset_def lon_divisor_0
  by (simp add: uniform_def test_source_def lat_offset_def py_round_def round_half_even_def
      Let_def)

lemma test_fstr_values:
  "test_fstr 44.5279615 = ''44.5279615''"
  "test_fstr 26.1798147 = ''26.1798147''"
  "test_fstr (-0.07207207) = ''-0.07207207''"
  "test_fstr 26.03686204 = ''26.03686204''"
  "test_fstr (-0.04504505) = ''-0.04504505''"
  "test_fstr 26.06388906 = ''26.06388906''"
  "test_fstr 44 = ''44.0''"
  "test_fstr 26 = ''26.0''"
proof -
  have n: "nat (round_half_even (\<bar>44.5279615\<bar> * 10 ^ 8)) = 4452796150"
    "nat (round_half_even (\<bar>26.1798147\<bar> * 10 ^ 8)) = 2617981470"
    "nat (round_half_even (\<bar>- 0.07207207\<bar> * 10 ^ 8)) = 7207207"
    "nat (round_half_even (\<bar>26.03686204\<bar> * 10 ^ 8)) = 2603686204"
    "nat (round_half_even (\<bar>- 0.04504505\<bar> * 10 ^ 8)) = 4504505"
    "nat (round_half_even (\<bar>26.06388906\<bar> * 10 ^ 8)) = 2606388906"
    "nat (round_half_even (\<bar>44\<bar> * 10 ^ 8)) = 4400000000"
    "nat (round_half_even (\<bar>26\<bar> * 10 ^ 8)) = 2600000000"
    by (simp_all add: round_half_even_def)
  show "test_fstr 44.5279615 = ''44.5279615''"
    "test_fstr 26.1798147 = ''26.1798147''"
    "test_fstr (-0.07207207) = ''-0.07207207''"
    "test_fstr 26.03686204 = ''26.03686204''"
    "test_fstr (-0.04504505) = ''-0.04504505''"
    "test_fstr 26.06388906 = ''26.06388906''"
    "test_fstr 44 = ''44.0''"
    "test_fstr 26 = ''26.0''"
    unfolding test_fstr_def n Let_def
    by (simp_all add: str_eval)
qed

section \<open>Properties of the CSV writer\<close>

lemma dict_to_list_exact:
  assumes "map fst r = fieldnames" "distinct fieldnames"
  shows "dict_to_list fieldnames r = Inr (map snd r)"
proof -
  have keys: "\<not> list_ex (\<lambda>k. k \<notin> set fieldnames) (map fst r)"
    using assms(1) by (auto simp: list_ex_iff)
  have "map (\<lambda>k. case map_of r k of Some v \<Rightarrow> v | None \<Rightarrow> []) (map fst r) = map snd r"
  proof (rule nth_equalityI)
    show "length (map (\<lambda>k. case map_of r k of Some v \<Rightarrow> v | None \<Rightarrow> []) (map fst r)) = length (map snd r)"
      by simp
  next
    fix i assume "i < length (map (\<lambda>k. case map_of r k of Some v \<Rightarrow> v | None \<Rightarrow> []) (map fst r))"
    then have i: "i < length r" by simp
    then have "r ! i \<in> set r" by simp
    then have "(fst (r ! i), snd (r ! i)) \<in> set r" by simp
    with assms have "map_of r (fst (r ! i)) = Some (snd (r ! i))"
      by (metis map_of_eq_Some_iff)
    with i show "map (\<lambda>k. case map_of r k of Some v \<Rightarrow> v | None \<Rightarrow> []) (map fst r) ! i = map snd r ! i"
      by simp
  qed
  with keys assms(1) show ?thesis
    by (simp add: dict_to_list_def)
qed

lemma csv_count_escape:
  "sep \<noteq> CHR 0x22 \<Longrightarrow> csv_count sep True (csv_escape f @ r) = csv_count sep True r"
  by (induction f) auto

lemma csv_count_plain:
  "\<not> list_ex csv_special f \<Longrightarrow> csv_special sep \<Longrightarrow>
   csv_count sep q (f @ r) = csv_count sep q r"
  by (induction f) (auto simp: csv_special_def)

lemma csv_count_field:
  "csv_special sep \<Longrightarrow> sep \<noteq> CHR 0x22 \<Longrightarrow>
   csv_count sep False (csv_field f @ r) = csv_count sep False r"
  by (simp add: csv_field_def csv_count_escape csv_count_plain)

lemma csv_count_join_comma:
  "fs \<noteq> [] \<Longrightarrow>
   csv_count (CHR '','') False (csv_join fs @ r) = (length fs - 1) + csv_count (CHR '','') False r"
proof (induction fs rule: csv_join.induct)
  case 1 then show ?case by simp
next
  case (2 f) then show ?case by (simp add: csv_count_field csv_special_def)
next
  case (3 f g fs)
  have "csv_count (CHR '','') False (csv_field f @ CHR '','' # csv_join (g # fs) @ r)
        = csv_count (CHR '','') False (CHR '','' # csv_join (g # fs) @ r)"
    by (rule csv_count_field) (simp_all add: csv_special_def)
  with 3 show ?case by simp
qed

lemma csv_count_join_lf:
  "csv_count (CHR 0x0A) False (csv_join fs @ r) = csv_count (CHR 0x0A) False r"
proof (induction fs rule: csv_join.induct)
  case 1 then show ?case by simp
next
  case (2 f) then show ?case by (simp add: csv_count_field csv_special_def)
next
  case (3 f g fs)
  have "csv_count (CHR 0x0A) False (csv_field f @ CHR '','' # csv_join (g # fs) @ r)
        = csv_count (CHR 0x0A) False (CHR '','' # csv_join (g # fs) @ r)"
    by (rule csv_count_field) (simp_all add: csv_special_def)
  with 3 show ?case by simp
qed

lemma csv_records_writerow:
  "csv_records (writerow fs @ out) = Suc (csv_records out)"
  by (simp add: csv_records_def writerow_def csv_count_join_lf)

lemma csv_split_escape:
  "csv_split True acc (csv_escape f @ r) = csv_split True (rev (csv_escape f) @ acc) r"
  by (induction f arbitrary: acc) auto

lemma csv_split_plain:
  "\<not> list_ex csv_special f \<Longrightarrow> csv_split q acc (f @ r) = csv_split q (rev f @ acc) r"
  by (induction f arbitrary: acc) (auto simp: csv_special_def)

lemma csv_split_field:
  "csv_split False acc (csv_field f @ r) = csv_split False (rev (csv_field f) @ acc) r"
  by (simp add: csv_field_def csv_split_escape csv_split_plain)

lemma csv_split_join:
  "csv_split False acc (csv_join fs @ r) = csv_split False (rev (csv_join fs) @ acc) r"
proof (induction fs arbitrary: acc rule: csv_join.induct)
  case 1 then show ?case by simp
next
  case (2 f) then show ?case by (simp add: csv_split_field)
next
  case (3 f g fs)
  have "csv_split False acc (csv_field f @ CHR '','' # csv_join (g # fs) @ r)
        = csv_split False (rev (csv_field f) @ acc) (CHR '','' # csv_join (g # fs) @ r)"
    by (rule csv_split_field)
  then show ?case by (simp add: 3)
qed

lemma csv_lines_writerow:
  "fs \<noteq> [[]] \<Longrightarrow> csv_lines (writerow fs @ out) = csv_join fs # csv_lines out"
  by (simp add: csv_lines_def writerow_def csv_split_join)

lemma csv_field_count_join:
  "fs \<noteq> [] \<Longrightarrow> csv_field_count (csv_join fs) = length fs"
  using csv_count_join_comma [of fs "[]"] by (cases fs) (simp_all add: csv_field_count_def)

lemma writerows_exact:
  "\<forall>r \<in> set rows. map fst r = fieldnames \<Longrightarrow> distinct fieldnames \<Longrightarrow>
   writerows fieldnames rows = Inr (concat (map (\<lambda>r. writerow (map snd r)) rows))"
  by (induction rows) (simp_all add: dict_to_list_exact)

lemma csv_lines_concat:
  "\<forall>fs \<in> set fss. fs \<noteq> [[]] \<Longrightarrow>
   csv_lines (concat (map writerow fss)) = map csv_join fss"
proof (induction fss)
  case Nil then show ?case by (simp add: csv_lines_def)
next
  case (Cons fs fss) then show ?case by (simp add: csv_lines_writerow)
qed

lemma csv_records_concat:
  "csv_records (concat (map writerow fss)) = length fss"
proof (induction fss)
  case Nil then show ?case by (simp add: csv_records_def)
next
  case (Cons fs fss) then show ?case by (simp add: csv_records_writerow)
qed

text \<open>What a file written from well-keyed rows looks like to a reader.\<close>

lemma write_csv_shape:
  assumes keys: "\<forall>r \<in> set rows. map fst r = fieldnames"
    and names: "distinct fieldnames" "2 \<le> length fieldnames"
  shows "\<exists>out. write_csv fieldnames rows = Inr out
           \<and> csv_records out = Suc (length rows)
           \<and> csv_lines out = csv_join fieldnames # map (\<lambda>r. csv_join (map snd r)) rows
           \<and> (\<forall>line \<in> set (csv_lines out). csv_field_count line = length fieldnames)"
proof -
  let ?fss = "map (map snd) rows"
  let ?out = "writerow fieldnames @ concat (map writerow ?fss)"
  have len: "\<forall>fs \<in> set ?fss. length fs = length fieldnames"
    using keys by (auto dest!: bspec arg_cong [where f = length])
  then have ne: "\<forall>fs \<in> set ?fss. fs \<noteq> [[]]" "\<forall>fs \<in> set ?fss. fs \<noteq> []"
    using names(2) by auto
  have w: "write_csv fieldnames rows = Inr ?out"
    using writerows_exact [OF keys names(1)] by (simp add: write_csv_def comp_def)
  have h: "fieldnames \<noteq> [[]]" "fieldnames \<noteq> []" using names(2) by auto
  have l: "csv_lines ?out = csv_join fieldnames # map csv_join ?fss"
    using csv_lines_writerow [OF h(1)] csv_lines_concat [OF ne(1)] by simp
  have r: "csv_records ?out = Suc (length rows)"
    using csv_records_concat [of ?fss] by (simp add: csv_records_writerow)
  have c: "\<forall>line \<in> set (csv_lines ?out). csv_field_count line = length fieldnames"
    using l len ne(2) h(2) by (auto simp: csv_field_count_join)
  from w l r c show ?thesis by (simp add: comp_def)
qed

section \<open>Properties of the coordinate sampler\<close>

lemma round_half_even_error: "\<bar>of_int (round_half_even y) - y\<bar> \<le> 1 / 2"
proof -
  define f where "f = \<lfloor>y\<rfloor>"
  define r where "r = y - of_int f"
  have r: "0 \<le> r" "r < 1" unfolding r_def f_def by linarith+
  have e: "round_half_even y
      = (if r < 1 / 2 then f else if 1 / 2 < r then f + 1 else if even f then f else f + 1)"
    by (simp add: round_half_even_def Let_def f_def r_def)
  have "(round_half_even y = f \<and> r \<le> 1 / 2) \<or> (round_half_even y = f + 1 \<and> 1 / 2 \<le> r)"
    by (cases "r < 1 / 2"; cases "1 / 2 < r"; cases "even f") (simp_all add: e)
  then consider (lo) "round_half_even y = f" "r \<le> 1 / 2"
    | (hi) "round_half_even y = f + 1" "1 / 2 \<le> r"
    by blast
  then show ?thesis
  proof cases
    case lo
    with r show ?thesis unfolding r_def by simp
  next
    case hi
    with r show ?thesis unfolding r_def by simp
  qed
qed

lemma py_round_error: "\<bar>py_round x n - x\<bar> \<le> 1 / (2 * 10 ^ n)"
proof -
  have p: "(0::real) < 10 ^ n" by simp
  have "py_round x n - x = (of_int (round_half_even (x * 10 ^ n)) - x * 10 ^ n) / 10 ^ n"
    by (simp add: py_round_def field_simps)
  then have "\<bar>py_round x n - x\<bar> = \<bar>of_int (round_half_even (x * 10 ^ n)) - x * 10 ^ n\<bar> / 10 ^ n"
    by simp
  also have "\<dots> \<le> (1 / 2) / 10 ^ n"
    by (rule divide_right_mono [OF round_half_even_error]) simp
  also have "\<dots> = 1 / (2 * 10 ^ n)" by simp
  finally show ?thesis .
qed

lemma uniform_symmetric_bound:
  assumes "rnd_in_range R" "uniform R (- L) L g = (x, g')"
  shows "\<bar>x\<bar> \<le> \<bar>L\<bar>"
proof -
  obtain u g1 where u: "rnd_random R g = (u, g1)" by (cases "rnd_random R g") auto
  with assms(1) have r: "0 \<le> u" "u < 1" unfolding rnd_in_range_def by (metis fst_conv)+
  from assms(2) u have x: "x = L * (2 * u - 1)" by (simp add: uniform_def algebra_simps)
  from r have "\<bar>2 * u - 1\<bar> \<le> 1" by (simp add: abs_if)
  then have "\<bar>L\<bar> * \<bar>2 * u - 1\<bar> \<le> \<bar>L\<bar> * 1" by (intro mult_left_mono) simp_all
  then show ?thesis by (simp add: x abs_mult)
qed

lemma sample_coords_bounds:
  assumes "0 \<le> sq" "rnd_in_range R" "sample_coords R clat clon sq g = Inr ((lat0, lon0), g')"
  shows "\<bar>lat0 - clat\<bar> \<le> sq / 2 / 111"
    and "\<bar>lon0 - clon\<bar> \<le> sq / 2 / (111 * \<bar>math_cos R (math_radians R clat)\<bar>)"
proof -
  from assms(3) obtain x g1 y where
    x: "uniform R (- lat_offset sq) (lat_offset sq) g = (x, g1)"
    and y: "uniform R (- lon_offset R clat sq) (lon_offset R clat sq) g1 = (y, g')"
    and l: "lat0 = clat + x" "lon0 = clon + y"
    by (auto simp: sample_coords_def split: if_splits prod.splits)
  from uniform_symmetric_bound [OF assms(2) x] assms(1)
  show "\<bar>lat0 - clat\<bar> \<le> sq / 2 / 111" by (simp add: l lat_offset_def)
  have "0 \<le> lon_offset R clat sq"
    using assms(1) by (simp add: lon_offset_def lon_divisor_def)
  with uniform_symmetric_bound [OF assms(2) y]
  show "\<bar>lon0 - clon\<bar> \<le> sq / 2 / (111 * \<bar>math_cos R (math_radians R clat)\<bar>)"
    by (simp add: l lon_offset_def lon_divisor_def)
qed

lemma cos_radians_pos: "-90 < x \<Longrightarrow> x < 90 \<Longrightarrow> 0 < cos (radians x)"
proof -
  assume x: "-90 < x" "x < 90"
  from mult_strict_left_mono [OF x(2) pi_gt_zero] mult_strict_left_mono [OF x(1) pi_gt_zero]
  have "- (pi / 2) < radians x" "radians x < pi / 2"
    by (simp_all add: radians_def mult.commute)
  then show ?thesis by (rule cos_gt_zero_pi)
qed

section \<open>Properties of the double library at the poles\<close>

lemma arctan_partial_sums:
  fixes x :: real
  assumes "0 < x" "x \<le> 1"
  shows "(\<Sum>i<2*n. (- 1) ^ i * (1 / real (i * 2 + 1) * x ^ (i * 2 + 1))) \<le> arctan x"
    and "arctan x \<le> (\<Sum>i<2*n+1. (- 1) ^ i * (1 / real (i * 2 + 1) * x ^ (i * 2 + 1)))"
proof -
  have x: "\<bar>x\<bar> \<le> 1" using assms by simp
  have a0: "0 < 1 / real (0 * 2 + 1) * x ^ (0 * 2 + 1)" using assms by simp
  from summable_Leibniz(2) [OF zeroseq_arctan_series [OF x] monoseq_arctan_series [OF x]] a0
  have "(\<Sum>i. (- 1) ^ i * (1 / real (i * 2 + 1) * x ^ (i * 2 + 1)))
      \<in> {\<Sum>i<2*n. (- 1) ^ i * (1 / real (i * 2 + 1) * x ^ (i * 2 + 1)) ..
         \<Sum>i<2*n+1. (- 1) ^ i * (1 / real (i * 2 + 1) * x ^ (i * 2 + 1))}"
    by blast
  then show "(\<Sum>i<2*n. (- 1) ^ i * (1 / real (i * 2 + 1) * x ^ (i * 2 + 1))) \<le> arctan x"
    and "arctan x \<le> (\<Sum>i<2*n+1. (- 1) ^ i * (1 / real (i * 2 + 1) * x ^ (i * 2 + 1)))"
    by (simp_all add: arctan_series [OF x])
qed

text \<open>Machin's formula with twelve and three terms: pi to seventeen digits from below.\<close>

lemma pi_lower_bound: "7074237752028440 / 2 ^ 51 < pi"
proof -
  have l: "(\<Sum>i<2*6. (- 1) ^ i * (1 / real (i * 2 + 1) * (1 / 5) ^ (i * 2 + 1))) \<le> arctan (1 / 5)"
    by (rule arctan_partial_sums) simp_all
  have u: "arctan (1 / 239) \<le> (\<Sum>i<2*1+1. (- 1) ^ i * (1 / real (i * 2 + 1) * (1 / 239) ^ (i * 2 + 1)))"
    by (rule arctan_partial_sums) simp_all
  have p: "pi = 16 * arctan (1 / 5) - 4 * arctan (1 / 239)"
    using machin by simp
  have "7074237752028440 / 2 ^ 51
      < 16 * (\<Sum>i<2*6. (- 1) ^ i * (1 / real (i * 2 + 1) * (1 / 5) ^ (i * 2 + 1)))
        - 4 * (\<Sum>i<2*1+1. (- 1) ^ i * (1 / real (i * 2 + 1) * ((1::real) / 239) ^ (i * 2 + 1)))"
    by (simp add: lessThan_Suc eval_nat_numeral)
  also have "\<dots> \<le> 16 * arctan (1 / 5) - 4 * arctan (1 / 239)"
    using l u by simp
  finally show ?thesis by (simp only: p)
qed

lemma pow2_powr: "pow2 e = 2 powr (of_int e)"
  by (simp add: pow2_def powr_int)

lemma pow2_pos: "0 < pow2 e"
  by (simp add: pow2_def)

lemma double_round_binade:
  assumes "pow2 k \<le> \<bar>x\<bar>" "\<bar>x\<bar> < pow2 (k + 1)"
  shows "double_round x = of_int (round_half_even (x / pow2 (k - 52))) * pow2 (k - 52)"
proof -
  from assms(1) pow2_pos [of k] have x: "0 < \<bar>x\<bar>" by linarith
  then have "\<lfloor>log 2 \<bar>x\<bar>\<rfloor> = k"
    using assms by (simp add: floor_log_eq_powr_iff pow2_powr)
  with x show ?thesis by (simp add: double_round_def Let_def)
qed

lemma double_round_nonzero:
  assumes "x \<noteq> 0"
  shows "double_round x \<noteq> 0"
proof -
  define k where "k = \<lfloor>log 2 \<bar>x\<bar>\<rfloor>"
  from assms have x: "0 < \<bar>x\<bar>" by simp
  then have "2 powr (of_int k) \<le> \<bar>x\<bar>"
    using floor_log_eq_powr_iff [of "\<bar>x\<bar>" 2 k] by (simp add: k_def)
  then have "pow2 k \<le> \<bar>x\<bar>" by (simp add: pow2_powr)
  moreover have "pow2 (k - 52) \<le> pow2 k" by (simp add: pow2_powr)
  ultimately have "pow2 (k - 52) \<le> \<bar>x\<bar>" by linarith
  then have "1 \<le> \<bar>x\<bar> / pow2 (k - 52)"
    using pow2_pos [of "k - 52"] by (simp add: pos_le_divide_eq)
  then have big: "1 \<le> \<bar>x / pow2 (k - 52)\<bar>"
    using pow2_pos [of "k - 52"] by (simp add: abs_divide)
  have "round_half_even (x / pow2 (k - 52)) \<noteq> 0"
  proof
    assume "round_half_even (x / pow2 (k - 52)) = 0"
    with round_half_even_error [of "x / pow2 (k - 52)"]
    have "\<bar>x / pow2 (k - 52)\<bar> \<le> 1 / 2" by simp
    with big show False by linarith
  qed
  with assms pow2_pos [of "k - 52"] show ?thesis
    by (simp add: double_round_def Let_def k_def [symmetric])
qed

lemma DEG_TO_RAD_value: "DEG_TO_RAD = 5030569068109113 / 2 ^ 58"
proof -
  have "pow2 (- 6) \<le> \<bar>PI_DOUBLE / 180\<bar>" "\<bar>PI_DOUBLE / 180\<bar> < pow2 (- 6 + 1)"
    by (simp_all add: pow2_def PI_DOUBLE_def)
  from double_round_binade [OF this] show ?thesis
    by (simp add: DEG_TO_RAD_def PI_DOUBLE_def pow2_def round_half_even_def)
qed

lemma double_radians_90:
  "math_radians double_source 90 = HALF_PI_DOUBLE"
  "math_radians double_source (- 90) = - HALF_PI_DOUBLE"
proof -
  have "pow2 0 \<le> \<bar>90 * DEG_TO_RAD\<bar>" "\<bar>90 * DEG_TO_RAD\<bar> < pow2 (0 + 1)"
    by (simp_all add: pow2_def DEG_TO_RAD_value)
  from double_round_binade [OF this]
  show "math_radians double_source 90 = HALF_PI_DOUBLE"
    by (simp add: double_source_def DEG_TO_RAD_value pow2_def round_half_even_def
        HALF_PI_DOUBLE_def)
  have "pow2 0 \<le> \<bar>- 90 * DEG_TO_RAD\<bar>" "\<bar>- 90 * DEG_TO_RAD\<bar> < pow2 (0 + 1)"
    by (simp_all add: pow2_def DEG_TO_RAD_value)
  from double_round_binade [OF this]
  show "math_radians double_source (- 90) = - HALF_PI_DOUBLE"
    by (simp add: double_source_def DEG_TO_RAD_value pow2_def round_half_even_def
        HALF_PI_DOUBLE_def)
qed

lemma cos_double_half_pi_pos: "0 < cos HALF_PI_DOUBLE"
proof -
  have "HALF_PI_DOUBLE < pi / 2"
    using pi_lower_bound by (simp add: HALF_PI_DOUBLE_def)
  moreover have "(0::real) < HALF_PI_DOUBLE" by (simp add: HALF_PI_DOUBLE_def)
  then have "- (pi / 2) < HALF_PI_DOUBLE"
    using pi_gt_zero by linarith
  ultimately show ?thesis by (rule cos_gt_zero_pi [rotated])
qed

lemma lon_divisor_double_pole:
  "lon_divisor double_source 90 \<noteq> 0" "lon_divisor double_source (- 90) \<noteq> 0"
proof -
  have "double_round (cos HALF_PI_DOUBLE) \<noteq> 0"
    using cos_double_half_pi_pos by (intro double_round_nonzero) simp
  then show "lon_divisor double_source 90 \<noteq> 0" "lon_divisor double_source (- 90) \<noteq> 0"
    unfolding lon_divisor_def double_radians_90
    by (simp_all add: double_source_def)
qed

lemma lon_divisor_exact_pole:
  assumes "exact_math R"
  shows "lon_divisor R 90 = 0" "lon_divisor R (- 90) = 0"
  using assms by (simp_all add: lon_divisor_def exact_math_def radians_def)

lemma rnd_in_range_double_source: "rnd_in_range double_source"
  by (simp add: rnd_in_range_def double_source_def test_source_def)

section \<open>Properties of dates, times and their rendering\<close>

lemma int_cases_1_12:
  "1 \<le> (k::int) \<Longrightarrow> k \<le> 12 \<Longrightarrow>
   k = 1 \<or> k = 2 \<or> k = 3 \<or> k = 4 \<or> k = 5 \<or> k = 6 \<or> k = 7 \<or> k = 8 \<or> k = 9 \<or> k = 10 \<or> k = 11 \<or> k = 12"
  by presburger

lemma month_of_yday_bounds:
  assumes "0 \<le> n" "n \<le> 364" "month_of_yday leap n = (m, d)"
  shows "1 \<le> m \<and> m \<le> 12 \<and> 1 \<le> d \<and> d \<le> 31"
proof -
  define k where "k = (n + 50) div 32"
  have "1 \<le> k" "k \<le> 12" using assms(1,2) by (simp_all add: k_def)
  then have "k = 1 \<or> k = 2 \<or> k = 3 \<or> k = 4 \<or> k = 5 \<or> k = 6 \<or> k = 7 \<or> k = 8 \<or> k = 9 \<or> k = 10 \<or> k = 11 \<or> k = 12"
    by (rule int_cases_1_12)
  moreover have "32 * k \<le> n + 50" "n + 50 < 32 * k + 32"
    unfolding k_def by presburger+
  moreover note assms
  ultimately show ?thesis
    unfolding month_of_yday_def Let_def k_def [symmetric] DAYS_BEFORE_MONTH_def DAYS_IN_MONTH_def
    by (elim disjE) (auto split: if_splits)
qed

lemma divmod_facts:
  fixes n :: int
  assumes "0 < k" "0 \<le> n"
  shows "n = k * (n div k) + n mod k" "0 \<le> n mod k" "n mod k < k" "0 \<le> n div k"
  using assms by (simp_all add: pos_imp_zdiv_nonneg_iff)

lemma ord2ymd_year_bounds:
  fixes n :: int
  assumes n: "0 \<le> n" "n \<le> 3652058"
  defines "n400 \<equiv> n div 146097" and "r400 \<equiv> n mod 146097"
  defines "n100 \<equiv> r400 div 36524" and "r100 \<equiv> r400 mod 36524"
  defines "n4 \<equiv> r100 div 1461" and "r4 \<equiv> r100 mod 1461"
  defines "n1 \<equiv> r4 div 365"
  shows "0 \<le> n400 * 400 + n100 * 100 + n4 * 4 + n1 \<and>
         n400 * 400 + n100 * 100 + n4 * 4 + n1 \<le> 9998 \<and>
         (n1 = 4 \<or> n100 = 4 \<longrightarrow> 1 \<le> n400 * 400 + n100 * 100 + n4 * 4 + n1) \<and>
         0 \<le> r4 mod 365 \<and> r4 mod 365 \<le> 364"
proof -
  have a: "n = 146097 * n400 + r400" "0 \<le> r400" "r400 < 146097" "0 \<le> n400"
    unfolding n400_def r400_def using divmod_facts [of 146097 n] n(1) by simp_all
  have b: "r400 = 36524 * n100 + r100" "0 \<le> r100" "r100 < 36524" "0 \<le> n100"
    unfolding n100_def r100_def using divmod_facts [of 36524 r400] a(2) by simp_all
  have c: "r100 = 1461 * n4 + r4" "0 \<le> r4" "r4 < 1461" "0 \<le> n4"
    unfolding n4_def r4_def using divmod_facts [of 1461 r100] b(2) by simp_all
  have e: "r4 = 365 * n1 + r4 mod 365" "0 \<le> r4 mod 365" "r4 mod 365 < 365" "0 \<le> n1"
    unfolding n1_def using divmod_facts [of 365 r4] c(2) by simp_all
  have lo: "0 \<le> n400 * 400 + n100 * 100 + n4 * 4 + n1"
    using a(4) b(4) c(4) e(4) by linarith
  have ub: "n400 \<le> 24" "n100 \<le> 4" "n4 \<le> 24" "n1 \<le> 4"
    using n(2) a b c e by linarith+
  have hi: "n400 * 400 + n100 * 100 + n4 * 4 + n1 \<le> 9998"
  proof (cases "n400 \<le> 23")
    case True with ub show ?thesis by linarith
  next
    case False
    with ub have a24: "n400 = 24" by linarith
    with n(2) a have r: "r400 \<le> 145730" by linarith
    show ?thesis
    proof (cases "n100 \<le> 2")
      case True with a24 ub show ?thesis by linarith
    next
      case False
      with r b have b3: "n100 = 3" by linarith
      with r b have r': "r100 \<le> 36158" by linarith
      show ?thesis
      proof (cases "n4 \<le> 23")
        case True with a24 b3 ub show ?thesis by linarith
      next
        case False
        with ub have c24: "n4 = 24" by linarith
        with r' c have "r4 \<le> 1094" by linarith
        with e have "n1 \<le> 2" by linarith
        with a24 b3 c24 show ?thesis by linarith
      qed
    qed
  qed
  have sp: "n1 = 4 \<or> n100 = 4 \<longrightarrow> 1 \<le> n400 * 400 + n100 * 100 + n4 * 4 + n1"
    using a(4) b(4) c(4) e(4) by auto
  show ?thesis using lo hi sp e(2) e(3) by simp
qed

lemma nat_lt_10_cases:
  "(d::nat) < 10 \<Longrightarrow> d = 0 \<or> d = 1 \<or> d = 2 \<or> d = 3 \<or> d = 4 \<or> d = 5 \<or> d = 6 \<or> d = 7 \<or> d = 8 \<or> d = 9"
  by presburger

lemma digit_char_is_digit: "d < 10 \<Longrightarrow> is_digit (digit_char d)"
  by (drule nat_lt_10_cases) (auto simp: is_digit_def digit_char_def)

lemma str_nat_digits: "\<forall>c \<in> set (str_nat n). is_digit c"
proof (induction n rule: str_nat.induct)
  case (1 n)
  show ?case
  proof (cases "n < 10")
    case True then show ?thesis
      by (subst str_nat.simps) (simp add: digit_char_is_digit)
  next
    case False
    with 1 have "\<forall>c \<in> set (str_nat (n div 10)). is_digit c" by simp
    with False show ?thesis
      by (subst str_nat.simps) (simp add: digit_char_is_digit)
  qed
qed

lemma str_nat_length: "n < 10 ^ w \<Longrightarrow> 0 < w \<Longrightarrow> length (str_nat n) \<le> w"
proof (induction n arbitrary: w rule: str_nat.induct)
  case (1 n)
  show ?case
  proof (cases "n < 10")
    case True with 1(3) show ?thesis
      by (subst str_nat.simps) simp
  next
    case False
    from 1(3) obtain v where w: "w = Suc v" by (cases w) auto
    with 1(2) False have v: "0 < v" by (cases v) auto
    from 1(2) w have "n div 10 < 10 ^ v" by (simp add: less_mult_imp_div_less)
    with 1(1) False v have "length (str_nat (n div 10)) \<le> v" by simp
    with False w show ?thesis
      by (subst str_nat.simps) simp
  qed
qed

lemma matches_append:
  "matches p s \<Longrightarrow> matches q t \<Longrightarrow> matches (p @ q) (s @ t)"
  by (induction p s rule: matches.induct) auto

lemma matches_digits:
  "\<forall>c \<in> set s. is_digit c \<Longrightarrow> matches (replicate (length s) CHR ''#'') s"
  by (induction s) auto

lemma matches_zfill:
  assumes "0 \<le> n" "n < 10 ^ w" "0 < w"
  shows "matches (replicate w CHR ''#'') (zfill w (str_int n))"
proof -
  have s: "str_int n = str_nat (nat n)" using assms(1) by (simp add: str_int_def)
  have "nat n < 10 ^ w" using assms(1,2) by (simp add: nat_less_iff)
  then have l: "length (str_nat (nat n)) \<le> w" using assms(3) by (rule str_nat_length)
  have z: "is_digit CHR ''0''" by (simp add: is_digit_def)
  have d: "\<forall>c \<in> set (zfill w (str_nat (nat n))). is_digit c"
    using str_nat_digits [of "nat n"] z by (auto simp: zfill_def)
  have "length (zfill w (str_nat (nat n))) = w" using l by (simp add: zfill_def)
  with matches_digits [OF d] s show ?thesis by simp
qed

lemma ord2ymd_bounds:
  assumes "1 \<le> ordinal" "ordinal \<le> MAXORDINAL" "ord2ymd ordinal = (y, m, d)"
  shows "1 \<le> y \<and> y \<le> 9999 \<and> 1 \<le> m \<and> m \<le> 12 \<and> 1 \<le> d \<and> d \<le> 31"
proof -
  define n where "n = ordinal - 1"
  define r4 where "r4 = n mod 146097 mod 36524 mod 1461"
  define n1 where "n1 = r4 div 365"
  define n4 where "n4 = n mod 146097 mod 36524 div 1461"
  define n100 where "n100 = n mod 146097 div 36524"
  define Y where "Y = n div 146097 * 400 + n100 * 100 + n4 * 4 + n1"
  have n: "0 \<le> n" "n \<le> 3652058"
    using assms(1,2) by (simp_all add: MAXORDINAL_def n_def)
  from ord2ymd_year_bounds [OF n]
  have yb: "0 \<le> Y" "Y \<le> 9998" "n1 = 4 \<or> n100 = 4 \<longrightarrow> 1 \<le> Y"
    "0 \<le> r4 mod 365" "r4 mod 365 \<le> 364"
    by (simp_all add: Y_def n1_def n100_def n4_def r4_def)
  have eq: "ord2ymd ordinal =
      (if n1 = 4 \<or> n100 = 4 then (Y, 12, 31)
       else (case month_of_yday (n1 = 3 \<and> (n4 \<noteq> 24 \<or> n100 = 3)) (r4 mod 365) of
               (month, day) \<Rightarrow> (Y + 1, month, day)))"
    by (simp add: ord2ymd_def Let_def Y_def n1_def n100_def n4_def r4_def n_def)
  show ?thesis
  proof (cases "n1 = 4 \<or> n100 = 4")
    case True
    with eq assms(3) yb show ?thesis by auto
  next
    case False
    obtain m' d' where md: "month_of_yday (n1 = 3 \<and> (n4 \<noteq> 24 \<or> n100 = 3)) (r4 mod 365) = (m', d')"
      by (cases "month_of_yday (n1 = 3 \<and> (n4 \<noteq> 24 \<or> n100 = 3)) (r4 mod 365)") auto
    from month_of_yday_bounds [OF yb(4) yb(5) md]
    have "1 \<le> m' \<and> m' \<le> 12 \<and> 1 \<le> d' \<and> d' \<le> 31" .
    with False eq md assms(3) yb show ?thesis by auto
  qed
qed


lemma div_86400_le_1: "0 \<le> (x::int) \<Longrightarrow> x < 172800 \<Longrightarrow> 0 \<le> x div 86400 \<and> x div 86400 \<le> 1"
  using zdiv_mono1 [of x 172799 86400] by (simp add: pos_imp_zdiv_nonneg_iff)

lemma mk_timedelta_Inr:
  assumes "mk_timedelta days seconds micros = Inr t"
  shows "(td_days t * 86400 + td_seconds t) * 1000000 + td_microseconds t
           = (days * 86400 + seconds) * 1000000 + micros"
    and "0 \<le> td_seconds t" "td_seconds t < 86400"
    and "0 \<le> td_microseconds t" "td_microseconds t < 1000000"
proof -
  define s where "s = seconds + micros div 1000000"
  have t: "t = \<lparr>td_days = days + s div 86400, td_seconds = s mod 86400,
                 td_microseconds = micros mod 1000000\<rparr>"
    using assms by (simp add: mk_timedelta_def Let_def s_def split: if_splits)
  have 1: "micros = 1000000 * (micros div 1000000) + micros mod 1000000" by simp
  have 2: "s = 86400 * (s div 86400) + s mod 86400" by simp
  show "(td_days t * 86400 + td_seconds t) * 1000000 + td_microseconds t
           = (days * 86400 + seconds) * 1000000 + micros"
    unfolding t using 1 2 s_def by (simp add: algebra_simps)
  show "0 \<le> td_seconds t" "td_seconds t < 86400"
    "0 \<le> td_microseconds t" "td_microseconds t < 1000000"
    unfolding t by simp_all
qed

lemma datetime_add_Inr:
  assumes "datetime_add d t = Inr d'"
  shows "datetime_micros d' =
           datetime_micros d + ((td_days t * 86400 + td_seconds t) * 1000000 + td_microseconds t)"
    and "1 \<le> dt_ordinal d'" "dt_ordinal d' \<le> MAXORDINAL"
    and "0 \<le> dt_hour d'" "dt_hour d' \<le> 23"
    and "0 \<le> dt_minute d'" "dt_minute d' \<le> 59"
    and "0 \<le> dt_second d'" "dt_second d' \<le> 59"
    and "0 \<le> dt_microsecond d'" "dt_microsecond d' \<le> 999999"
proof -
  from assms obtain delta where
    mk: "mk_timedelta (dt_ordinal d + td_days t)
           (dt_hour d * 3600 + dt_minute d * 60 + dt_second d + td_seconds t)
           (dt_microsecond d + td_microseconds t) = Inr delta"
    and rng: "0 < td_days delta" "td_days delta \<le> MAXORDINAL"
    and d': "d' = \<lparr>dt_ordinal = td_days delta,
                    dt_hour = td_seconds delta div 3600,
                    dt_minute = (td_seconds delta mod 3600) div 60,
                    dt_second = (td_seconds delta mod 3600) mod 60,
                    dt_microsecond = td_microseconds delta\<rparr>"
    by (auto simp: datetime_add_def split: sum.splits if_splits)
  note f = mk_timedelta_Inr [OF mk]
  define s where "s = td_seconds delta"
  have s: "0 \<le> s" "s < 86400" using f(2,3) by (simp_all add: s_def)
  have split: "s = (s div 3600) * 3600 + ((s mod 3600) div 60) * 60 + (s mod 3600) mod 60"
    by (simp add: mult.commute)
  have "datetime_micros d' = (td_days delta * 86400 + s) * 1000000 + td_microseconds delta"
    unfolding datetime_micros_def d' using split by (simp add: s_def [symmetric])
  then show "datetime_micros d' =
           datetime_micros d + ((td_days t * 86400 + td_seconds t) * 1000000 + td_microseconds t)"
    using f(1) by (simp add: s_def datetime_micros_def algebra_simps)
  show "1 \<le> dt_ordinal d'" "dt_ordinal d' \<le> MAXORDINAL" using rng d' by simp_all
  have "s div 3600 \<le> 23" using s by simp
  moreover have "0 \<le> s div 3600" using s by (simp add: pos_imp_zdiv_nonneg_iff)
  ultimately show "0 \<le> dt_hour d'" "dt_hour d' \<le> 23" by (simp_all add: d' s_def)
  have "0 \<le> s mod 3600" "s mod 3600 < 3600" by simp_all
  then have "0 \<le> (s mod 3600) div 60" "(s mod 3600) div 60 \<le> 59"
    by (simp_all add: pos_imp_zdiv_nonneg_iff)
  then show "0 \<le> dt_minute d'" "dt_minute d' \<le> 59" by (simp_all add: d' s_def)
  have "0 \<le> (s mod 3600) mod 60" "(s mod 3600) mod 60 < 60" by simp_all
  then show "0 \<le> dt_second d'" "dt_second d' \<le> 59" by (simp_all add: d' s_def)
  show "0 \<le> dt_microsecond d'" "dt_microsecond d' \<le> 999999" using f(4,5) by (simp_all add: d')
qed

lemma time_window_bounds_Inr:
  assumes "time_window_bounds R now sh eh dur fh fm g = Inr ((st, en), g')"
  obtains h one_day tomorrow duration where
    "selected_hour R sh eh fh g = Inr (h, g')"
    "mk_timedelta 1 0 0 = Inr one_day"
    "datetime_add now one_day = Inr tomorrow"
    "0 \<le> h" "h \<le> 23"
    "st = tomorrow\<lparr>dt_hour := h, dt_minute := 0, dt_second := 0, dt_microsecond := 0\<rparr>"
    "mk_timedelta 0 (dur * 60) 0 = Inr duration"
    "datetime_add st duration = Inr en"
  using assms unfolding time_window_bounds_def replace_hour_00_def
  by (auto split: sum.splits if_splits prod.splits)

lemma datetime_add_days:
  assumes "valid_datetime now" "datetime_add now \<lparr>td_days = k, td_seconds = 0, td_microseconds = 0\<rparr> = Inr d'"
  shows "d' = now\<lparr>dt_ordinal := dt_ordinal now + k\<rparr>"
proof -
  define s where "s = dt_hour now * 3600 + dt_minute now * 60 + dt_second now"
  have v: "0 \<le> dt_hour now" "dt_hour now \<le> 23" "0 \<le> dt_minute now" "dt_minute now \<le> 59"
    "0 \<le> dt_second now" "dt_second now \<le> 59" "0 \<le> dt_microsecond now"
    "dt_microsecond now < 1000000"
    using assms(1) by (simp_all add: valid_datetime_def)
  have s: "0 \<le> s" "s < 86400" using v by (simp_all add: s_def)
  have r: "0 \<le> dt_minute now * 60 + dt_second now" "dt_minute now * 60 + dt_second now < 3600"
    using v by simp_all
  have h: "s div 3600 = dt_hour now"
    using r by (simp add: s_def add.assoc div_pos_pos_trivial)
  have m: "s mod 3600 = dt_minute now * 60 + dt_second now"
    using r by (simp add: s_def add.assoc mod_pos_pos_trivial)
  have mm: "(dt_minute now * 60 + dt_second now) div 60 = dt_minute now"
    "(dt_minute now * 60 + dt_second now) mod 60 = dt_second now"
    "dt_second now mod 60 = dt_second now"
    using v by (simp_all add: div_pos_pos_trivial mod_pos_pos_trivial)
  have us: "dt_microsecond now div 1000000 = 0" "dt_microsecond now mod 1000000 = dt_microsecond now"
    using v by (simp_all add: div_pos_pos_trivial mod_pos_pos_trivial)
  have sd: "s div 86400 = 0" "s mod 86400 = s"
    using s by (simp_all add: div_pos_pos_trivial mod_pos_pos_trivial)
  from assms(2) show ?thesis
    unfolding datetime_add_def mk_timedelta_def Let_def
    by (auto simp add: us s_def [symmetric] sd h m mm split: if_splits)
qed

section \<open>Properties of the time-window generator\<close>

lemma datetime_add_whole_days:
  assumes "valid_datetime now"
  shows "datetime_add now \<lparr>td_days = k, td_seconds = 0, td_microseconds = 0\<rparr> =
           (if 0 < dt_ordinal now + k \<and> dt_ordinal now + k \<le> MAXORDINAL
            then Inr (now\<lparr>dt_ordinal := dt_ordinal now + k\<rparr>) else Inl OverflowError)"
proof (cases "datetime_add now \<lparr>td_days = k, td_seconds = 0, td_microseconds = 0\<rparr>")
  case (Inr d')
  from datetime_add_days [OF assms Inr] datetime_add_Inr(2,3) [OF Inr] Inr
  show ?thesis by simp
next
  case (Inl e)
  define s where "s = dt_hour now * 3600 + dt_minute now * 60 + dt_second now"
  have v: "0 \<le> dt_hour now" "dt_hour now \<le> 23" "0 \<le> dt_minute now" "dt_minute now \<le> 59"
    "0 \<le> dt_second now" "dt_second now \<le> 59" "0 \<le> dt_microsecond now"
    "dt_microsecond now < 1000000"
    using assms(1) by (simp_all add: valid_datetime_def)
  have s: "0 \<le> s" "s < 86400" using v by (simp_all add: s_def)
  have us: "dt_microsecond now div 1000000 = 0"
    using v by (simp add: div_pos_pos_trivial)
  have sd: "s div 86400 = 0"
    using s by (simp add: div_pos_pos_trivial)
  from Inl have "\<not> (0 < dt_ordinal now + k \<and> dt_ordinal now + k \<le> MAXORDINAL)"
    unfolding datetime_add_def mk_timedelta_def Let_def
    by (auto simp add: us s_def [symmetric] sd MAXORDINAL_def split: if_splits)
  moreover from Inl have "e = OverflowError"
    unfolding datetime_add_def mk_timedelta_def Let_def
    by (auto split: if_splits)
  ultimately show ?thesis using Inl by simp
qed

lemma generate_random_time_window_Inr:
  assumes "generate_random_time_window R now sh eh dur fh fm g = Inr ((a, b, c, d), g')"
  obtains st en where
    "time_window_bounds R now sh eh dur fh fm g = Inr ((st, en), g')"
    "a = strftime_iso st" "b = strftime_iso st" "c = strftime_iso en" "d = strftime_iso en"
  using assms unfolding generate_random_time_window_def Let_def
  by (auto split: sum.splits prod.splits)

lemma time_window_bounds_start:
  assumes "valid_datetime now"
    and "time_window_bounds R now sh eh dur fh fm g = Inr ((st, en), g')"
  obtains h where "selected_hour R sh eh fh g = Inr (h, g')" "0 \<le> h" "h \<le> 23"
    "st = \<lparr>dt_ordinal = dt_ordinal now + 1, dt_hour = h, dt_minute = 0, dt_second = 0,
           dt_microsecond = 0\<rparr>"
    "dt_ordinal now + 1 \<le> MAXORDINAL"
proof -
  from assms(2) obtain h one_day tomorrow where
    h: "selected_hour R sh eh fh g = Inr (h, g')" "0 \<le> h" "h \<le> 23"
    and od: "mk_timedelta 1 0 0 = Inr one_day"
    and tm: "datetime_add now one_day = Inr tomorrow"
    and st: "st = tomorrow\<lparr>dt_hour := h, dt_minute := 0, dt_second := 0, dt_microsecond := 0\<rparr>"
    by (rule time_window_bounds_Inr)
  from od have "one_day = \<lparr>td_days = 1, td_seconds = 0, td_microseconds = 0\<rparr>"
    by (simp add: mk_timedelta_def)
  with tm datetime_add_whole_days [OF assms(1), of 1]
  have "tomorrow = now\<lparr>dt_ordinal := dt_ordinal now + 1\<rparr>" "dt_ordinal now + 1 \<le> MAXORDINAL"
    by (simp_all split: if_splits)
  with st h that show ?thesis by simp
qed

lemma time_window_bounds_end:
  assumes "time_window_bounds R now sh eh dur fh fm g = Inr ((st, en), g')"
  shows "datetime_micros en = datetime_micros st + dur * 60 * 1000000"
    and "dt_minute st = 0" "dt_second st = 0" "dt_microsecond st = 0"
    and "1 \<le> dt_ordinal st" "dt_ordinal st \<le> MAXORDINAL" "0 \<le> dt_hour st" "dt_hour st \<le> 23"
    and "1 \<le> dt_ordinal en" "dt_ordinal en \<le> MAXORDINAL" "0 \<le> dt_hour en" "dt_hour en \<le> 23"
    and "0 \<le> dt_minute en" "dt_minute en \<le> 59" "0 \<le> dt_second en" "dt_second en \<le> 59"
proof -
  from assms obtain h one_day tomorrow duration where
    h: "0 \<le> h" "h \<le> 23"
    and tm: "datetime_add now one_day = Inr tomorrow"
    and st: "st = tomorrow\<lparr>dt_hour := h, dt_minute := 0, dt_second := 0, dt_microsecond := 0\<rparr>"
    and du: "mk_timedelta 0 (dur * 60) 0 = Inr duration"
    and en: "datetime_add st duration = Inr en"
    by (rule time_window_bounds_Inr)
  from mk_timedelta_Inr(1) [OF du] datetime_add_Inr(1) [OF en]
  show "datetime_micros en = datetime_micros st + dur * 60 * 1000000" by simp
  show "dt_minute st = 0" "dt_second st = 0" "dt_microsecond st = 0" by (simp_all add: st)
  from datetime_add_Inr(2,3) [OF tm] h
  show "1 \<le> dt_ordinal st" "dt_ordinal st \<le> MAXORDINAL" "0 \<le> dt_hour st" "dt_hour st \<le> 23"
    by (simp_all add: st)
  from datetime_add_Inr [OF en]
  show "1 \<le> dt_ordinal en" "dt_ordinal en \<le> MAXORDINAL" "0 \<le> dt_hour en" "dt_hour en \<le> 23"
    "0 \<le> dt_minute en" "dt_minute en \<le> 59" "0 \<le> dt_second en" "dt_second en \<le> 59"
    by simp_all
qed

lemma valid_test_clock: "valid_datetime (test_clock i)"
proof -
  have "i mod 1000 < 1000" by simp
  then have "int (i mod 1000) \<le> 999999" by linarith
  then show ?thesis by (simp add: valid_datetime_def test_clock_def MAXORDINAL_def)
qed

text \<open>The time window of the test clock with the pickup hour fixed at 8.\<close>

lemma test_window_bounds:
  "time_window_bounds test_source (test_clock i) 6 22 60 (Some 8) 0 g =
     Inr ((\<lparr>dt_ordinal = 739925, dt_hour = 8, dt_minute = 0, dt_second = 0, dt_microsecond = 0\<rparr>,
           \<lparr>dt_ordinal = 739925, dt_hour = 9, dt_minute = 0, dt_second = 0, dt_microsecond = 0\<rparr>), g)"
proof -
  have one_day: "mk_timedelta 1 0 0 = Inr \<lparr>td_days = 1, td_seconds = 0, td_microseconds = 0\<rparr>"
    by (simp add: mk_timedelta_def)
  have tomorrow: "datetime_add (test_clock i) \<lparr>td_days = 1, td_seconds = 0, td_microseconds = 0\<rparr>
      = Inr ((test_clock i)\<lparr>dt_ordinal := 739925\<rparr>)"
    using datetime_add_whole_days [OF valid_test_clock, of i 1]
    by (simp add: test_clock_def MAXORDINAL_def)
  show ?thesis
    unfolding time_window_bounds_def selected_hour_def
    by (simp add: one_day tomorrow)
       (simp add: mk_timedelta_def datetime_add_def test_clock_def MAXORDINAL_def
          replace_hour_00_def Let_def)
qed

lemma strftime_iso_test_8:
  "strftime_iso \<lparr>dt_ordinal = 739925, dt_hour = 8, dt_minute = 0, dt_second = 0, dt_microsecond = 0\<rparr>
     = ''2026-11-05T08:00:00.000Z''"
  by (simp add: strftime_iso_def ord2ymd_def month_of_yday_def DAYS_BEFORE_MONTH_def
      DAYS_IN_MONTH_def Let_def str_eval)

lemma strftime_iso_test_9:
  "strftime_iso \<lparr>dt_ordinal = 739925, dt_hour = 9, dt_minute = 0, dt_second = 0, dt_microsecond = 0\<rparr>
     = ''2026-11-05T09:00:00.000Z''"
  by (simp add: strftime_iso_def ord2ymd_def month_of_yday_def DAYS_BEFORE_MONTH_def
      DAYS_IN_MONTH_def Let_def str_eval)

lemma test_window:
  "generate_random_time_window test_source (test_clock i) 6 22 60 (Some 8) 0 g =
     Inr ((''2026-11-05T08:00:00.000Z'', ''2026-11-05T08:00:00.000Z'',
           ''2026-11-05T09:00:00.000Z'', ''2026-11-05T09:00:00.000Z''), g)"
  by (simp add: generate_random_time_window_def test_window_bounds strftime_iso_test_8
      strftime_iso_test_9 Let_def)

lemma whole_minutes_second_zero:
  fixes h dur :: int
  shows "(h * 3600 + dur * 60 mod 86400) mod 86400 mod 3600 mod 60 = 0"
proof -
  have "dur * 60 mod 86400 mod 60 = dur * 60 mod 60"
    by (rule mod_mod_cancel) simp
  then have "(60::int) dvd dur * 60 mod 86400"
    by (simp add: dvd_eq_mod_eq_0)
  moreover have "(60::int) dvd h * 3600" by simp
  ultimately have "(60::int) dvd h * 3600 + dur * 60 mod 86400" by (rule dvd_add [rotated])
  then have "(h * 3600 + dur * 60 mod 86400) mod 60 = 0" by (simp only: dvd_eq_mod_eq_0)
  moreover have "(h * 3600 + dur * 60 mod 86400) mod 86400 mod 3600 mod 60
    = (h * 3600 + dur * 60 mod 86400) mod 60"
  proof -
    define x where "x = h * 3600 + dur * 60 mod 86400"
    have "x mod 86400 mod 3600 = x mod 3600" by (rule mod_mod_cancel) simp
    moreover have "x mod 3600 mod 60 = x mod 60" by (rule mod_mod_cancel) simp
    ultimately show ?thesis by (simp only: x_def [symmetric])
  qed
  ultimately show ?thesis by simp
qed


lemma datetime_add_second:
  assumes "datetime_add d t = Inr d'"
  shows "dt_second d' =
           (dt_hour d * 3600 + dt_minute d * 60 + dt_second d + td_seconds t
             + (dt_microsecond d + td_microseconds t) div 1000000) mod 86400 mod 3600 mod 60"
    and "dt_microsecond d' = (dt_microsecond d + td_microseconds t) mod 1000000"
  using assms unfolding datetime_add_def mk_timedelta_def Let_def
  by (auto split: if_splits)

lemma time_window_bounds_end_zero:
  assumes "time_window_bounds R now sh eh dur fh fm g = Inr ((st, en), g')"
  shows "dt_second en = 0" "dt_microsecond en = 0"
proof -
  from assms obtain h one_day tomorrow duration where
    st: "st = tomorrow\<lparr>dt_hour := h, dt_minute := 0, dt_second := 0, dt_microsecond := 0\<rparr>"
    and du: "mk_timedelta 0 (dur * 60) 0 = Inr duration"
    and en: "datetime_add st duration = Inr en"
    by (rule time_window_bounds_Inr)
  from du have d: "td_seconds duration = dur * 60 mod 86400" "td_microseconds duration = 0"
    by (auto simp: mk_timedelta_def Let_def split: if_splits)
  from datetime_add_second(1) [OF en]
  have "dt_second en = (h * 3600 + dur * 60 mod 86400) mod 86400 mod 3600 mod 60"
    by (simp add: st d)
  then show "dt_second en = 0" by (simp only: whole_minutes_second_zero)
  from datetime_add_second(2) [OF en] show "dt_microsecond en = 0"
    by (simp add: st d)
qed

lemma selected_hour_fixed: "selected_hour R sh eh (Some h) g = Inr (h, g)"
  by (simp add: selected_hour_def)

lemma randint_Inr:
  assumes "rnd_in_range R" "randint R a b g = Inr (v, g')"
  shows "a \<le> v \<and> v \<le> b \<and> rnd_randbelow R (b + 1 - a) g = (v - a, g')"
proof -
  from assms(2) have w: "0 < b + 1 - a" by (auto simp: randint_def split: if_splits)
  obtain k g1 where k: "rnd_randbelow R (b + 1 - a) g = (k, g1)"
    by (cases "rnd_randbelow R (b + 1 - a) g") auto
  with assms(1) w have "0 \<le> k \<and> k < b + 1 - a"
    unfolding rnd_in_range_def by (metis fst_conv)
  with assms(2) w k show ?thesis by (auto simp: randint_def)
qed

lemma randint_succeeds:
  assumes "a \<le> b"
  shows "\<exists>v g'. randint R a b g = Inr (v, g')"
  using assms by (cases "rnd_randbelow R (b + 1 - a) g") (simp add: randint_def)

lemma selected_hour_random:
  assumes "rnd_in_range R" "selected_hour R sh eh None g = Inr (h, g')"
  shows "randint R sh (eh - 1) g = Inr (h, g') \<and> sh \<le> h \<and> h < eh"
  using assms randint_Inr [of R sh "eh - 1" g h g'] by (simp add: selected_hour_def)

lemma time_window_bounds_succeeds:
  assumes now: "valid_datetime now" "dt_ordinal now + 3 \<le> MAXORDINAL"
    and h: "selected_hour R sh eh fh g = Inr (h, g')" "0 \<le> h" "h \<le> 23"
    and dur: "0 \<le> dur" "dur \<le> 1440"
  shows "\<exists>en. time_window_bounds R now sh eh dur fh fm g =
           Inr ((\<lparr>dt_ordinal = dt_ordinal now + 1, dt_hour = h, dt_minute = 0, dt_second = 0,
                  dt_microsecond = 0\<rparr>, en), g')"
proof -
  have ord: "1 \<le> dt_ordinal now" using now(1) by (simp add: valid_datetime_def)
  have one_day: "mk_timedelta 1 0 0 = Inr \<lparr>td_days = 1, td_seconds = 0, td_microseconds = 0\<rparr>"
    by (simp add: mk_timedelta_def)
  have tomorrow: "datetime_add now \<lparr>td_days = 1, td_seconds = 0, td_microseconds = 0\<rparr>
      = Inr (now\<lparr>dt_ordinal := dt_ordinal now + 1\<rparr>)"
    using datetime_add_whole_days [OF now(1), of 1] now(2) ord by simp
  define D where "D = dur * 60 div 86400"
  define S where "S = dur * 60 mod 86400"
  define C where "C = (h * 3600 + S) div 86400"
  have D: "0 \<le> D" "D \<le> 1"
    unfolding D_def using div_86400_le_1 [of "dur * 60"] dur by simp_all
  have S: "0 \<le> S" "S < 86400" by (simp_all add: S_def)
  have C: "0 \<le> C" "C \<le> 1"
    unfolding C_def using div_86400_le_1 [of "h * 3600 + S"] S h(2,3) by simp_all
  have duration: "mk_timedelta 0 (dur * 60) 0 = Inr \<lparr>td_days = D, td_seconds = S, td_microseconds = 0\<rparr>"
    using D by (simp add: mk_timedelta_def D_def S_def)
  have "\<exists>en. datetime_add \<lparr>dt_ordinal = dt_ordinal now + 1, dt_hour = h, dt_minute = 0,
                 dt_second = 0, dt_microsecond = 0\<rparr>
              \<lparr>td_days = D, td_seconds = S, td_microseconds = 0\<rparr> = Inr en"
    using D C ord now(2)
    by (simp add: datetime_add_def mk_timedelta_def Let_def C_def [symmetric] MAXORDINAL_def)
  then obtain en where en: "datetime_add \<lparr>dt_ordinal = dt_ordinal now + 1, dt_hour = h,
      dt_minute = 0, dt_second = 0, dt_microsecond = 0\<rparr>
      \<lparr>td_days = D, td_seconds = S, td_microseconds = 0\<rparr> = Inr en" ..
  have st: "now\<lparr>dt_ordinal := dt_ordinal now + 1, dt_hour := h, dt_minute := 0,
                 dt_second := 0, dt_microsecond := 0\<rparr>
      = \<lparr>dt_ordinal = dt_ordinal now + 1, dt_hour = h, dt_minute = 0, dt_second = 0,
          dt_microsecond = 0\<rparr>"
    by (cases now) simp
  have "time_window_bounds R now sh eh dur fh fm g =
           Inr ((\<lparr>dt_ordinal = dt_ordinal now + 1, dt_hour = h, dt_minute = 0, dt_second = 0,
                  dt_microsecond = 0\<rparr>, en), g')"
    using h by (simp add: time_window_bounds_def one_day tomorrow replace_hour_00_def duration
        st en)
  then show ?thesis ..
qed

text \<open>The same clock with the pickup hour fixed at 23 and a window of 150 minutes, which
  ends on the day after its start.\<close>

lemma test_window_bounds_late:
  "time_window_bounds test_source (test_clock i) 6 22 150 (Some 23) 0 g =
     Inr ((\<lparr>dt_ordinal = 739925, dt_hour = 23, dt_minute = 0, dt_second = 0, dt_microsecond = 0\<rparr>,
           \<lparr>dt_ordinal = 739926, dt_hour = 1, dt_minute = 30, dt_second = 0, dt_microsecond = 0\<rparr>), g)"
proof -
  have one_day: "mk_timedelta 1 0 0 = Inr \<lparr>td_days = 1, td_seconds = 0, td_microseconds = 0\<rparr>"
    by (simp add: mk_timedelta_def)
  have tomorrow: "datetime_add (test_clock i) \<lparr>td_days = 1, td_seconds = 0, td_microseconds = 0\<rparr>
      = Inr ((test_clock i)\<lparr>dt_ordinal := 739925\<rparr>)"
    using datetime_add_whole_days [OF valid_test_clock, of i 1]
    by (simp add: test_clock_def MAXORDINAL_def)
  show ?thesis
    unfolding time_window_bounds_def selected_hour_def
    by (simp add: one_day tomorrow)
       (simp add: mk_timedelta_def datetime_add_def test_clock_def MAXORDINAL_def
          replace_hour_00_def Let_def)
qed

lemma strftime_iso_test_late:
  "strftime_iso \<lparr>dt_ordinal = 739925, dt_hour = 23, dt_minute = 0, dt_second = 0, dt_microsecond = 0\<rparr>
     = ''2026-11-05T23:00:00.000Z''"
  "strftime_iso \<lparr>dt_ordinal = 739926, dt_hour = 1, dt_minute = 30, dt_second = 0, dt_microsecond = 0\<rparr>
     = ''2026-11-06T01:30:00.000Z''"
  by (simp_all add: strftime_iso_def ord2ymd_def month_of_yday_def DAYS_BEFORE_MONTH_def
      DAYS_IN_MONTH_def Let_def str_eval)

lemma test_window_late:
  "generate_random_time_window test_source (test_clock i) 6 22 150 (Some 23) 0 g =
     Inr ((''2026-11-05T23:00:00.000Z'', ''2026-11-05T23:00:00.000Z'',
           ''2026-11-06T01:30:00.000Z'', ''2026-11-06T01:30:00.000Z''), g)"
  by (simp add: generate_random_time_window_def test_window_bounds_late strftime_iso_test_late
      Let_def)

text \<open>A valid datetime is determined by its place on the time line.\<close>

lemma datetime_micros_inj:
  assumes "valid_datetime d" "valid_datetime d'" "datetime_micros d = datetime_micros d'"
  shows "d = d'"
proof -
  define t where "t = dt_hour d * 3600 + dt_minute d * 60 + dt_second d"
  define t' where "t' = dt_hour d' * 3600 + dt_minute d' * 60 + dt_second d'"
  define s where "s = dt_ordinal d * 86400 + t"
  define s' where "s' = dt_ordinal d' * 86400 + t'"
  from assms(1,2) have b: "0 \<le> t" "t < 86400" "0 \<le> t'" "t' < 86400"
    by (simp_all add: valid_datetime_def t_def t'_def)
  from assms(1,2) have m: "0 \<le> dt_microsecond d" "dt_microsecond d < 1000000"
    "0 \<le> dt_microsecond d'" "dt_microsecond d' < 1000000"
    by (simp_all add: valid_datetime_def)
  from assms(3) have e: "s * 1000000 + dt_microsecond d = s' * 1000000 + dt_microsecond d'"
    by (simp add: datetime_micros_def s_def s'_def t_def t'_def algebra_simps)
  have "(s * 1000000 + dt_microsecond d) div 1000000 = s" using m by simp
  moreover have "(s' * 1000000 + dt_microsecond d') div 1000000 = s'" using m by simp
  ultimately have ss: "s = s'" using e by simp
  with e have us: "dt_microsecond d = dt_microsecond d'" by simp
  have "(dt_ordinal d * 86400 + t) div 86400 = dt_ordinal d" using b by simp
  moreover have "(dt_ordinal d' * 86400 + t') div 86400 = dt_ordinal d'" using b by simp
  ultimately have oo: "dt_ordinal d = dt_ordinal d'" using ss by (simp add: s_def s'_def)
  with ss have tt: "t = t'" by (simp add: s_def s'_def)
  from assms(1,2) have hm: "0 \<le> dt_minute d * 60 + dt_second d"
    "dt_minute d * 60 + dt_second d < 3600"
    "0 \<le> dt_minute d' * 60 + dt_second d'" "dt_minute d' * 60 + dt_second d' < 3600"
    by (simp_all add: valid_datetime_def)
  have "(dt_hour d * 3600 + (dt_minute d * 60 + dt_second d)) div 3600 = dt_hour d"
    using hm by simp
  moreover have "(dt_hour d' * 3600 + (dt_minute d' * 60 + dt_second d')) div 3600 = dt_hour d'"
    using hm by simp
  ultimately have hh: "dt_hour d = dt_hour d'" using tt by (simp add: t_def t'_def add.assoc)
  with tt have r: "dt_minute d * 60 + dt_second d = dt_minute d' * 60 + dt_second d'"
    by (simp add: t_def t'_def)
  from assms(1,2) have sb: "0 \<le> dt_second d" "dt_second d < 60" "0 \<le> dt_second d'"
    "dt_second d' < 60" by (simp_all add: valid_datetime_def)
  have "(dt_minute d * 60 + dt_second d) div 60 = dt_minute d" using sb by simp
  moreover have "(dt_minute d' * 60 + dt_second d') div 60 = dt_minute d'" using sb by simp
  ultimately have mm: "dt_minute d = dt_minute d'" using r by simp
  with r have "dt_second d = dt_second d'" by simp
  with oo hh mm us show ?thesis by simp
qed

section \<open>Properties of the shipment rows\<close>

lemma matches_literal: "CHR ''#'' \<notin> set p \<Longrightarrow> matches p p"
  by (induction p) auto

lemma strftime_iso_on_the_hour:
  assumes "1 \<le> dt_ordinal d" "dt_ordinal d \<le> MAXORDINAL"
    "dt_minute d = 0" "dt_second d = 0"
  shows "\<exists>date. matches ''####-##-##'' date \<and>
           strftime_iso d = date @ ''T'' @ zfill 2 (str_int (dt_hour d)) @ '':00:00.000Z''"
proof -
  obtain y m dd where ymd: "ord2ymd (dt_ordinal d) = (y, m, dd)"
    by (cases "ord2ymd (dt_ordinal d)") auto
  from ord2ymd_bounds [OF assms(1,2) ymd]
  have b: "0 \<le> y" "y < 10 ^ 4" "0 \<le> m" "m < 10 ^ 2" "0 \<le> dd" "dd < 10 ^ 2" by simp_all
  have m4: "matches ''####'' (zfill 4 (str_int y))"
    using matches_zfill [OF b(1,2)] by (simp add: numeral_eq_Suc)
  have m2: "\<And>v. 0 \<le> v \<Longrightarrow> v < 10 ^ 2 \<Longrightarrow> matches ''##'' (zfill 2 (str_int v))"
    using matches_zfill [where w = 2] by (simp add: numeral_eq_Suc)
  have lit: "matches ''-'' ''-''" by simp
  have "matches (''####'' @ ''-'' @ ''##'' @ ''-'' @ ''##'')
          (zfill 4 (str_int y) @ ''-'' @ zfill 2 (str_int m) @ ''-'' @ zfill 2 (str_int dd))"
    by (intro matches_append m4 m2 lit b)
  moreover have "zfill 2 (str_int 0) = ''00''"
    by (simp add: str_eval)
  ultimately show ?thesis
    by (simp add: strftime_iso_def ymd assms(3,4))
qed

lemma shipment_rows_Inr:
  assumes "shipment_rows R clock fstr a is g = Inr rows"
  shows "length rows = length is \<and>
         (\<forall>k < length is. \<exists>coords tw num_pallets g0 g1 g2 g3.
            generate_random_coords R (delivery_center_lat a) (delivery_center_lon a)
              (square_size_km a) g0 = Inr (coords, g1) \<and>
            generate_random_time_window R (clock (is ! k)) 6 22 60 (pickup_hour a)
              (pickup_minute a) g1 = Inr (tw, g2) \<and>
            randint R 1 (max_pallets a) g2 = Inr (num_pallets, g3) \<and>
            rows ! k = shipment_row fstr a (is ! k) coords tw num_pallets)"
  using assms
proof (induction "is" arbitrary: g rows)
  case Nil
  then show ?case by simp
next
  case (Cons i "is")
  from Cons.prems obtain coords g1 tw g2 np g3 rest where
    c: "generate_random_coords R (delivery_center_lat a) (delivery_center_lon a)
          (square_size_km a) g = Inr (coords, g1)"
    and t: "generate_random_time_window R (clock i) 6 22 60 (pickup_hour a)
          (pickup_minute a) g1 = Inr (tw, g2)"
    and p: "randint R 1 (max_pallets a) g2 = Inr (np, g3)"
    and r: "shipment_rows R clock fstr a is g3 = Inr rest"
    and rows: "rows = shipment_row fstr a i coords tw np # rest"
    by (auto split: sum.splits prod.splits)
  from Cons.IH [OF r] have len: "length rest = length is"
    and ih: "\<forall>k < length is. \<exists>coords tw num_pallets g0 g1 g2 g3.
            generate_random_coords R (delivery_center_lat a) (delivery_center_lon a)
              (square_size_km a) g0 = Inr (coords, g1) \<and>
            generate_random_time_window R (clock (is ! k)) 6 22 60 (pickup_hour a)
              (pickup_minute a) g1 = Inr (tw, g2) \<and>
            randint R 1 (max_pallets a) g2 = Inr (num_pallets, g3) \<and>
            rest ! k = shipment_row fstr a (is ! k) coords tw num_pallets"
    by simp_all
  show ?case
  proof (intro conjI allI impI)
    show "length rows = length (i # is)" using len rows by simp
  next
    fix k assume "k < length (i # is)"
    show "\<exists>coords tw num_pallets g0 g1 g2 g3.
            generate_random_coords R (delivery_center_lat a) (delivery_center_lon a)
              (square_size_km a) g0 = Inr (coords, g1) \<and>
            generate_random_time_window R (clock ((i # is) ! k)) 6 22 60 (pickup_hour a)
              (pickup_minute a) g1 = Inr (tw, g2) \<and>
            randint R 1 (max_pallets a) g2 = Inr (num_pallets, g3) \<and>
            rows ! k = shipment_row fstr a ((i # is) ! k) coords tw num_pallets"
    proof (cases k)
      case 0
      show ?thesis
        by (rule exI [of _ coords], rule exI [of _ tw], rule exI [of _ np], rule exI [of _ g],
            rule exI [of _ g1], rule exI [of _ g2], rule exI [of _ g3])
          (simp add: 0 rows c t p)
    next
      case (Suc j)
      with \<open>k < length (i # is)\<close> have "j < length is" by simp
      with ih Suc rows show ?thesis by simp
    qed
  qed
qed

lemma generate_random_coords_succeeds:
  "lon_divisor R clat \<noteq> 0 \<Longrightarrow> \<exists>coords g'. generate_random_coords R clat clon sq g = Inr (coords, g')"
  by (simp add: generate_random_coords_def sample_coords_def split: prod.splits)

lemma selected_hour_succeeds:
  assumes "rnd_in_range R"
    and "case fh of Some h \<Rightarrow> 0 \<le> h \<and> h \<le> 23 | None \<Rightarrow> True"
  shows "\<exists>h g'. selected_hour R 6 22 fh g = Inr (h, g') \<and> 0 \<le> h \<and> h \<le> 23"
proof (cases fh)
  case (Some h)
  with assms(2) show ?thesis by (simp add: selected_hour_def)
next
  case None
  from randint_succeeds [of 6 21 R g] obtain v g' where r: "randint R 6 21 g = Inr (v, g')"
    by auto
  from randint_Inr [OF assms(1) r] have "6 \<le> v" "v \<le> 21" by simp_all
  with None r show ?thesis by (simp add: selected_hour_def)
qed

lemma generate_random_time_window_succeeds:
  assumes "rnd_in_range R"
    and "case fh of Some h \<Rightarrow> 0 \<le> h \<and> h \<le> 23 | None \<Rightarrow> True"
    and "valid_datetime now" "dt_ordinal now + 3 \<le> MAXORDINAL"
  shows "\<exists>tw g'. generate_random_time_window R now 6 22 60 fh fm g = Inr (tw, g')"
proof -
  from selected_hour_succeeds [OF assms(1,2), of g] obtain h g' where
    h: "selected_hour R 6 22 fh g = Inr (h, g')" "0 \<le> h" "h \<le> 23" by blast
  from time_window_bounds_succeeds [OF assms(3,4) h, of 60 fm]
  obtain st en where "time_window_bounds R now 6 22 60 fh fm g = Inr ((st, en), g')"
    by auto
  then show ?thesis by (simp add: generate_random_time_window_def Let_def)
qed

lemma shipment_rows_succeed:
  assumes "rnd_in_range R"
    and "lon_divisor R (delivery_center_lat a) \<noteq> 0"
    and "1 \<le> max_pallets a"
    and "case pickup_hour a of Some h \<Rightarrow> 0 \<le> h \<and> h \<le> 23 | None \<Rightarrow> True"
    and "\<forall>i \<in> set is. valid_datetime (clock i) \<and> dt_ordinal (clock i) + 3 \<le> MAXORDINAL"
  shows "\<exists>rows. shipment_rows R clock fstr a is g = Inr rows"
  using assms(5)
proof (induction "is" arbitrary: g)
  case Nil
  show ?case by simp
next
  case (Cons i "is")
  from generate_random_coords_succeeds [OF assms(2), where g = g
      and clon = "delivery_center_lon a" and sq = "square_size_km a"] obtain coords g1 where
    c: "generate_random_coords R (delivery_center_lat a) (delivery_center_lon a)
          (square_size_km a) g = Inr (coords, g1)" by blast
  from Cons.prems have "valid_datetime (clock i)" "dt_ordinal (clock i) + 3 \<le> MAXORDINAL"
    by simp_all
  from generate_random_time_window_succeeds [OF assms(1,4) this, where g = g1
      and fm = "pickup_minute a"] obtain tw g2 where
    t: "generate_random_time_window R (clock i) 6 22 60 (pickup_hour a) (pickup_minute a) g1
          = Inr (tw, g2)" by blast
  from randint_succeeds [OF assms(3), where R = R and g = g2] obtain np g3 where
    p: "randint R 1 (max_pallets a) g2 = Inr (np, g3)" by blast
  from Cons.prems have "\<forall>i \<in> set is. valid_datetime (clock i) \<and> dt_ordinal (clock i) + 3 \<le> MAXORDINAL"
    by simp
  from Cons.IH [OF this, of g3] obtain rest where "shipment_rows R clock fstr a is g3 = Inr rest"
    by blast
  with c t p show ?case by simp
qed

lemma shipment_row_keys: "map fst (shipment_row fstr a i coords tw np) = shipment_headers"
  by (cases coords, cases tw) (simp add: shipment_row_def shipment_headers_def)

lemma shipment_headers_distinct: "distinct shipment_headers" "length shipment_headers = 30"
  by (simp_all add: shipment_headers_def)

lemma vehicle_headers_distinct: "distinct vehicle_headers" "length vehicle_headers = 31"
  by (simp_all add: vehicle_headers_def)

lemma vehicle_row_keys: "map fst (vehicle_row wp flag cap i) = vehicle_headers"
  by (simp add: vehicle_row_def vehicle_headers_def)

section \<open>The test run\<close>

lemma test_args_fields:
  "num_shipments test_args = 2" "depot_lat test_args = 44.5279615"
  "depot_lon test_args = 26.1798147" "delivery_center_lat test_args = 0"
  "delivery_center_lon test_args = 26.0999251" "square_size_km test_args = 20"
  "delivery_duration_sec test_args = 600" "penalty_cost test_args = 200"
  "penalty_per_hour test_args = 1000" "max_pallets test_args = 10"
  "seed test_args = Some 42" "pickup_hour test_args = Some 8" "pickup_minute test_args = 0"
  by (simp_all add: test_args_def)

lemma test_pallets:
  "randint test_source 1 10 (44::nat) = Inr (5, 45)"
  "randint test_source 1 10 (47::nat) = Inr (8, 48)"
  by (simp_all add: randint_def test_source_def)

lemma upt_0_2: "[0 ..< nat 2] = [0, 1]"
  by (simp add: upt_conv_Cons)

lemma test_rows:
  "generate_shipments_rows test_source test_clock test_fstr test_args g0 =
     Inr [shipment_row test_fstr test_args 0 (-0.07207207, 26.03686204)
            (''2026-11-05T08:00:00.000Z'', ''2026-11-05T08:00:00.000Z'',
             ''2026-11-05T09:00:00.000Z'', ''2026-11-05T09:00:00.000Z'') 5,
          shipment_row test_fstr test_args 1 (-0.04504505, 26.06388906)
            (''2026-11-05T08:00:00.000Z'', ''2026-11-05T08:00:00.000Z'',
             ''2026-11-05T09:00:00.000Z'', ''2026-11-05T09:00:00.000Z'') 8]"
proof -
  have s: "rnd_seed test_source 42 = 42" by (simp add: test_source_def)
  show ?thesis
    unfolding generate_shipments_rows_def Let_def test_args_fields option.case s upt_0_2
      shipment_rows.simps test_coords_42 test_coords_45 test_window test_pallets
      sum.case prod.case
    by (rule refl)
qed

lemma window_start_string:
  assumes "generate_random_time_window R now sh eh dur fh fm g = Inr ((a, b, c, d), g')"
  obtains h date where "selected_hour R sh eh fh g = Inr (h, g')" "0 \<le> h" "h \<le> 23"
    "matches ''####-##-##'' date" "a = date @ ''T'' @ zfill 2 (str_int h) @ '':00:00.000Z''"
proof -
  from assms obtain st en where
    b: "time_window_bounds R now sh eh dur fh fm g = Inr ((st, en), g')"
    and a: "a = strftime_iso st"
    by (rule generate_random_time_window_Inr)
  from b obtain h one_day tomorrow where
    h: "selected_hour R sh eh fh g = Inr (h, g')" "0 \<le> h" "h \<le> 23"
    and st: "st = tomorrow\<lparr>dt_hour := h, dt_minute := 0, dt_second := 0, dt_microsecond := 0\<rparr>"
    by (rule time_window_bounds_Inr)
  note e = time_window_bounds_end [OF b]
  from strftime_iso_on_the_hour [OF e(5,6,2,3)] obtain date where
    "matches ''####-##-##'' date"
    "strftime_iso st = date @ ''T'' @ zfill 2 (str_int (dt_hour st)) @ '':00:00.000Z''"
    by blast
  with h st a that show ?thesis by simp
qed

lemma matches_hour_8:
  assumes "matches ''####-##-##'' date"
  shows "matches ''####-##-##T08:00:00.000Z'' (date @ ''T'' @ zfill 2 (str_int 8) @ '':00:00.000Z'')"
proof -
  have "matches ''T08:00:00.000Z'' (''T'' @ zfill 2 (str_int 8) @ '':00:00.000Z'')"
    by (simp add: str_eval)
  with assms have "matches (''####-##-##'' @ ''T08:00:00.000Z'')
     (date @ ''T'' @ zfill 2 (str_int 8) @ '':00:00.000Z'')"
    by (rule matches_append)
  then show ?thesis by simp
qed

lemma generate_shipments_rows_Inr:
  assumes "generate_shipments_rows R clock fstr a g0 = Inr rows"
  shows "length rows = nat (num_shipments a)"
    and "r \<in> set rows \<Longrightarrow> \<exists>k coords tw num_pallets g1 g2.
            k < nat (num_shipments a) \<and>
            generate_random_time_window R (clock k) 6 22 60 (pickup_hour a)
              (pickup_minute a) g1 = Inr (tw, g2) \<and>
            r = shipment_row fstr a k coords tw num_pallets"
proof -
  define g where "g = (case seed a of Some s \<Rightarrow> rnd_seed R s | None \<Rightarrow> g0)"
  from assms have sr: "shipment_rows R clock fstr a [0 ..< nat (num_shipments a)] g = Inr rows"
    by (simp add: generate_shipments_rows_def g_def)
  note c = shipment_rows_Inr [OF sr]
  from c show len: "length rows = nat (num_shipments a)" by simp
  assume "r \<in> set rows"
  then obtain k where k: "k < length rows" "r = rows ! k" by (auto simp: in_set_conv_nth)
  with len have kn: "k < length [0 ..< nat (num_shipments a)]" by simp
  with c obtain coords tw np g1 g2 where
    "generate_random_time_window R (clock ([0 ..< nat (num_shipments a)] ! k)) 6 22 60
       (pickup_hour a) (pickup_minute a) g1 = Inr (tw, g2)"
    "rows ! k = shipment_row fstr a ([0 ..< nat (num_shipments a)] ! k) coords tw np"
    by blast
  with kn k show "\<exists>k coords tw num_pallets g1 g2.
            k < nat (num_shipments a) \<and>
            generate_random_time_window R (clock k) 6 22 60 (pickup_hour a)
              (pickup_minute a) g1 = Inr (tw, g2) \<and>
            r = shipment_row fstr a k coords tw num_pallets"
    by (intro exI [of _ k] exI [of _ coords] exI [of _ tw] exI [of _ np] exI [of _ g1]
        exI [of _ g2]) simp
qed

lemma generate_shipments_rows_succeed:
  assumes "rnd_in_range R"
    and "lon_divisor R (delivery_center_lat a) \<noteq> 0"
    and "1 \<le> max_pallets a"
    and "case pickup_hour a of Some h \<Rightarrow> 0 \<le> h \<and> h \<le> 23 | None \<Rightarrow> True"
    and "\<forall>i < nat (num_shipments a). valid_datetime (clock i) \<and> dt_ordinal (clock i) + 3 \<le> MAXORDINAL"
  shows "\<exists>rows. generate_shipments_rows R clock fstr a g0 = Inr rows"
  unfolding generate_shipments_rows_def Let_def
  using assms(5) by (intro shipment_rows_succeed assms(1-4)) simp

lemma shipment_row_delivery_start:
  "map_of (shipment_row fstr a k coords (s, ss, e, se) np) ''deliveryStartTime'' = Some s"
  by (cases coords) (simp add: shipment_row_def)

lemma test_window_random:
  "generate_random_time_window test_source (test_clock 0) 6 22 60 None 0 (5::nat) =
     Inr ((''2026-11-05T11:00:00.000Z'', ''2026-11-05T11:00:00.000Z'',
           ''2026-11-05T12:00:00.000Z'', ''2026-11-05T12:00:00.000Z''), 6)"
proof -
  have h: "selected_hour test_source 6 22 None (5::nat) = Inr (11, 6)"
    by (simp add: selected_hour_def randint_def test_source_def)
  have one_day: "mk_timedelta 1 0 0 = Inr \<lparr>td_days = 1, td_seconds = 0, td_microseconds = 0\<rparr>"
    by (simp add: mk_timedelta_def)
  have tomorrow: "datetime_add (test_clock 0) \<lparr>td_days = 1, td_seconds = 0, td_microseconds = 0\<rparr>
      = Inr ((test_clock 0)\<lparr>dt_ordinal := 739925\<rparr>)"
    using datetime_add_whole_days [OF valid_test_clock, of 0 1]
    by (simp add: test_clock_def MAXORDINAL_def)
  have b: "time_window_bounds test_source (test_clock 0) 6 22 60 None 0 (5::nat) =
     Inr ((\<lparr>dt_ordinal = 739925, dt_hour = 11, dt_minute = 0, dt_second = 0, dt_microsecond = 0\<rparr>,
           \<lparr>dt_ordinal = 739925, dt_hour = 12, dt_minute = 0, dt_second = 0, dt_microsecond = 0\<rparr>), 6)"
    unfolding time_window_bounds_def
    by (simp add: h one_day tomorrow)
       (simp add: mk_timedelta_def datetime_add_def test_clock_def MAXORDINAL_def
          replace_hour_00_def Let_def)
  have s: "strftime_iso \<lparr>dt_ordinal = 739925, dt_hour = 11, dt_minute = 0, dt_second = 0, dt_microsecond = 0\<rparr>
     = ''2026-11-05T11:00:00.000Z''"
    "strftime_iso \<lparr>dt_ordinal = 739925, dt_hour = 12, dt_minute = 0, dt_second = 0, dt_microsecond = 0\<rparr>
     = ''2026-11-05T12:00:00.000Z''"
    by (simp_all add: strftime_iso_def ord2ymd_def month_of_yday_def DAYS_BEFORE_MONTH_def
      DAYS_IN_MONTH_def Let_def str_eval)
  show ?thesis
    by (simp add: generate_random_time_window_def b s Let_def)
qed



lemma shipment_row_delivery_times:
  "map_of (shipment_row fstr a k coords (s, ss, e, se) np) ''deliveryStartTime'' = Some s"
  "map_of (shipment_row fstr a k coords (s, ss, e, se) np) ''deliverySoftStartTime'' = Some ss"
  "map_of (shipment_row fstr a k coords (s, ss, e, se) np) ''deliveryEndTime'' = Some e"
  "map_of (shipment_row fstr a k coords (s, ss, e, se) np) ''deliverySoftEndTime'' = Some se"
  by (cases coords, simp add: shipment_row_def)+

section \<open>Properties of the vehicle generator\<close>

lemma vehicle_rows_length:
  "length (vehicle_rows fstr n dlat dlon cap flag) = nat n"
  by (simp add: vehicle_rows_def Let_def)

lemma vehicle_rows_nth:
  "k < nat n \<Longrightarrow>
   vehicle_rows fstr n dlat dlon cap flag ! k =
     vehicle_row (waypoint fstr dlat dlon) (if flag then ''TRUE'' else ''FALSE'') cap k"
  by (simp add: vehicle_rows_def Let_def)

text \<open>
  Claim C10. For every \<open>num_vehicles \<ge> 1\<close> and every parameter set, the generator builds
  \<open>num_vehicles\<close> rows with the columns of the header; row \<open>k\<close> (counted from 0) has the label
  \<open>Vehicle - (k + 1)\<close>, and everything after the label is the same in every row: it is the
  tail of a row computed from the depot coordinates, the capacity and the use-if-empty flag
  alone. In it the travel mode is \<open>DRIVING\<close>, the four costs are \<open>0\<close>, start and end
  waypoint are the depot, and the flag is rendered \<open>TRUE\<close> or \<open>FALSE\<close>.
\<close>

theorem vehicle_rows_differ_only_in_label:
  "1 \<le> num_vehicles \<Longrightarrow> k < nat num_vehicles \<Longrightarrow>
   (let rows = vehicle_rows fstr num_vehicles dlat dlon capacity_pallets use_if_empty;
        r = rows ! k;
        depot = fstr dlat @ '', '' @ fstr dlon
    in length rows = nat num_vehicles
     \<and> map fst r = vehicle_headers
     \<and> hd r = (''label'', ''Vehicle - '' @ str_int (int k + 1))
     \<and> tl r = tl (rows ! 0)
     \<and> tl r = tl (vehicle_row depot (if use_if_empty then ''TRUE'' else ''FALSE'') capacity_pallets 0)
     \<and> map_of r ''label'' = Some (''Vehicle - '' @ str_int (int k + 1))
     \<and> map_of r ''travelMode'' = Some ''DRIVING''
     \<and> map_of r ''costPerHour'' = Some ''0''
     \<and> map_of r ''costPerTraveledHour'' = Some ''0''
     \<and> map_of r ''costPerKilometer'' = Some ''0''
     \<and> map_of r ''fixedCost'' = Some ''0''
     \<and> map_of r ''startWaypoint'' = Some depot
     \<and> map_of r ''endWaypoint'' = Some depot
     \<and> map_of r ''usedIfRouteIsEmpty'' = Some (if use_if_empty then ''TRUE'' else ''FALSE''))"
  unfolding Let_def
  by (simp add: vehicle_rows_length vehicle_rows_nth)
     (simp add: vehicle_row_def vehicle_headers_def waypoint_def)

theorem vehicle_rows_differ_only_in_label_witness:
  "(1::int) \<le> 3 \<and> (2::nat) < nat 3 \<and>
   (let rows = vehicle_rows test_fstr 3 44 26 100 True; r = rows ! 2
    in length rows = 3
     \<and> hd r = (''label'', ''Vehicle - 3'')
     \<and> tl r = tl (rows ! 0)
     \<and> map_of r ''travelMode'' = Some ''DRIVING''
     \<and> map_of r ''fixedCost'' = Some ''0''
     \<and> map_of r ''startWaypoint'' = Some ''44.0, 26.0''
     \<and> map_of r ''endWaypoint'' = Some ''44.0, 26.0''
     \<and> map_of r ''usedIfRouteIsEmpty'' = Some ''TRUE'')"
  using vehicle_rows_differ_only_in_label [of 3 2 test_fstr 44 26 100 True]
  by (simp add: Let_def test_fstr_values str_eval)

section \<open>Properties of the written files\<close>

lemma generate_shipments_rows_keys:
  assumes "generate_shipments_rows R clock fstr a g0 = Inr rows"
  shows "\<forall>r \<in> set rows. map fst r = shipment_headers"
proof
  fix r assume "r \<in> set rows"
  from generate_shipments_rows_Inr(2) [OF assms this] show "map fst r = shipment_headers"
    by (auto simp: shipment_row_keys)
qed

lemma generate_shipments_csv_written:
  assumes "generate_shipments_rows R clock fstr a g0 = Inr rows"
  shows "\<exists>out. generate_shipments_csv R clock fstr a g0 = Inr out
           \<and> csv_records out = Suc (length rows)
           \<and> csv_lines out = csv_join shipment_headers # map (\<lambda>r. csv_join (map snd r)) rows
           \<and> (\<forall>line \<in> set (csv_lines out). csv_field_count line = 30)"
  using write_csv_shape [OF generate_shipments_rows_keys [OF assms] shipment_headers_distinct(1)]
  by (simp add: generate_shipments_csv_def assms shipment_headers_distinct(2))

lemma generate_shipments_csv_Inr:
  assumes "generate_shipments_csv R clock fstr a g0 = Inr out"
  obtains rows where "generate_shipments_rows R clock fstr a g0 = Inr rows"
    "csv_records out = Suc (length rows)"
    "csv_lines out = csv_join shipment_headers # map (\<lambda>r. csv_join (map snd r)) rows"
    "\<forall>line \<in> set (csv_lines out). csv_field_count line = 30"
proof -
  from assms obtain rows where r: "generate_shipments_rows R clock fstr a g0 = Inr rows"
    by (auto simp: generate_shipments_csv_def split: sum.splits)
  from generate_shipments_csv_written [OF r] assms that [OF r] show ?thesis by auto
qed

lemma vehicle_rows_keys:
  "\<forall>r \<in> set (vehicle_rows fstr n dlat dlon cap flag). map fst r = vehicle_headers"
  by (auto simp: vehicle_rows_def Let_def vehicle_row_keys)

lemma generate_vehicles_csv_written:
  "\<exists>out. generate_vehicles_csv fstr n dlat dlon cap flag = Inr out
     \<and> csv_records out = Suc (nat n)
     \<and> csv_lines out = csv_join vehicle_headers
          # map (\<lambda>r. csv_join (map snd r)) (vehicle_rows fstr n dlat dlon cap flag)
     \<and> (\<forall>line \<in> set (csv_lines out). csv_field_count line = 31)"
  using write_csv_shape [OF vehicle_rows_keys vehicle_headers_distinct(1), of fstr n dlat dlon cap flag]
  by (simp add: generate_vehicles_csv_def vehicle_headers_distinct(2) vehicle_rows_length)

text \<open>
  Claim C4. Whenever \<^verbatim>\<open>generate_random_time_window\<close> returns, for any hour, duration and
  clock value: the soft start is the start and the soft end is the end, the two strings
  render the datetimes \<^verbatim>\<open>start_time\<close> and \<^verbatim>\<open>end_time\<close> of the function, both are valid
  datetimes (a date within the calendar, an hour below 24, a minute and a second below
  60), and \<^verbatim>\<open>end_time\<close> lies exactly \<^verbatim>\<open>window_duration_minutes\<close> minutes after
  \<^verbatim>\<open>start_time\<close> on the time line. A valid datetime is determined by its place on the
  time line, so \<^verbatim>\<open>end_time\<close> is the one valid datetime at that distance from
  \<^verbatim>\<open>start_time\<close>. Both fall on a whole second, so rendering them to the second loses
  nothing.
\<close>

theorem time_window_duration_exact:
  assumes "generate_random_time_window R now start_hour end_hour window_duration_minutes
             fixed_hour fixed_minute g
           = Inr ((startTime, softStartTime, endTime, softEndTime), g')"
  shows "softStartTime = startTime \<and> softEndTime = endTime \<and>
         (\<exists>start_time end_time.
            time_window_bounds R now start_hour end_hour window_duration_minutes
              fixed_hour fixed_minute g = Inr ((start_time, end_time), g') \<and>
            startTime = strftime_iso start_time \<and> endTime = strftime_iso end_time \<and>
            valid_datetime start_time \<and> valid_datetime end_time \<and>
            datetime_micros end_time
              = datetime_micros start_time + window_duration_minutes * 60 * 1000000 \<and>
            (\<forall>d. valid_datetime d \<and>
               datetime_micros d
                 = datetime_micros start_time + window_duration_minutes * 60 * 1000000
               \<longrightarrow> d = end_time) \<and>
            dt_second start_time = 0 \<and> dt_microsecond start_time = 0 \<and>
            dt_second end_time = 0 \<and> dt_microsecond end_time = 0)"
proof -
  from assms obtain st en where
    b: "time_window_bounds R now start_hour end_hour window_duration_minutes
          fixed_hour fixed_minute g = Inr ((st, en), g')"
    and s: "startTime = strftime_iso st" "softStartTime = strftime_iso st"
      "endTime = strftime_iso en" "softEndTime = strftime_iso en"
    by (rule generate_random_time_window_Inr)
  note e = time_window_bounds_end [OF b]
  note z = time_window_bounds_end_zero [OF b]
  from e z have vs: "valid_datetime st" by (simp add: valid_datetime_def)
  from e z have ve: "valid_datetime en" by (simp add: valid_datetime_def)
  have u: "\<forall>d. valid_datetime d \<and>
      datetime_micros d = datetime_micros st + window_duration_minutes * 60 * 1000000
      \<longrightarrow> d = en"
    using datetime_micros_inj [OF _ ve] e(1) by simp
  from e(1,3,4) z b s vs ve u show ?thesis by blast
qed

theorem time_window_duration_exact_witness:
  "generate_random_time_window test_source (test_clock 0) 6 22 150 (Some 23) 0 (0::nat)
     = Inr ((''2026-11-05T23:00:00.000Z'', ''2026-11-05T23:00:00.000Z'',
             ''2026-11-06T01:30:00.000Z'', ''2026-11-06T01:30:00.000Z''), 0) \<and>
   (\<exists>start_time end_time.
      time_window_bounds test_source (test_clock 0) 6 22 150 (Some 23) 0 (0::nat)
        = Inr ((start_time, end_time), 0) \<and>
      end_time = \<lparr>dt_ordinal = 739926, dt_hour = 1, dt_minute = 30, dt_second = 0,
                  dt_microsecond = 0\<rparr> \<and>
      valid_datetime start_time \<and> valid_datetime end_time \<and>
      datetime_micros end_time = datetime_micros start_time + 150 * 60 * 1000000)"
  using time_window_duration_exact [OF test_window_late [of 0 0]] test_window_late [of 0 0]
    test_window_bounds_late [of 0 0]
  by auto

text \<open>
  Claim C8. For every value of the clock, the start of the window is on the day after the
  clock's local date (its ordinal plus one), at the selected hour, with minute, second
  and microsecond zero.
\<close>

theorem window_starts_tomorrow:
  assumes "valid_datetime now"
    and "time_window_bounds R now start_hour end_hour window_duration_minutes
           fixed_hour fixed_minute g = Inr ((start_time, end_time), g')"
  shows "dt_ordinal start_time = dt_ordinal now + 1 \<and>
         selected_hour R start_hour end_hour fixed_hour g = Inr (dt_hour start_time, g') \<and>
         dt_minute start_time = 0 \<and> dt_second start_time = 0 \<and>
         dt_microsecond start_time = 0"
proof -
  from assms obtain h where
    "selected_hour R start_hour end_hour fixed_hour g = Inr (h, g')"
    "start_time = \<lparr>dt_ordinal = dt_ordinal now + 1, dt_hour = h, dt_minute = 0,
                    dt_second = 0, dt_microsecond = 0\<rparr>"
    by (rule time_window_bounds_start)
  then show ?thesis by simp
qed

theorem window_starts_tomorrow_witness:
  "valid_datetime (test_clock 0) \<and>
   time_window_bounds test_source (test_clock 0) 6 22 60 (Some 8) 0 (0::nat) =
     Inr ((\<lparr>dt_ordinal = 739925, dt_hour = 8, dt_minute = 0, dt_second = 0, dt_microsecond = 0\<rparr>,
           \<lparr>dt_ordinal = 739925, dt_hour = 9, dt_minute = 0, dt_second = 0, dt_microsecond = 0\<rparr>), 0) \<and>
   dt_ordinal (test_clock 0) + 1 = 739925 \<and>
   selected_hour test_source 6 22 (Some 8) (0::nat) = Inr (8, 0)"
  using window_starts_tomorrow [OF valid_test_clock test_window_bounds, of 0 0]
    valid_test_clock [of 0] test_window_bounds [of 0 0]
  by simp



text \<open>
  Claim C5. With a fixed hour \<open>h\<close> the window starts at \<open>h\<close>:00:00 (the random source is
  not touched), and \<^verbatim>\<open>fixed_minute\<close> has no effect on the result. Without a fixed hour
  the hour is the value of \<^verbatim>\<open>random.randint(start_hour, end_hour - 1)\<close>, the library's
  uniform draw, which lies in \<open>[start_hour, end_hour)\<close>; the minute is :00 again. In a run
  of the generator with the pickup hour fixed at 8, every row's delivery start time has
  the hour 08, whatever the number of rows; such a run returns its rows whenever the clock
  readings are valid dates before 9999-12-29, the cosine computed for the delivery centre
  is not zero and \<^verbatim>\<open>max_pallets\<close> is at least 1.
\<close>

theorem window_hour_selection:
  "(\<forall>h g' startTime softStartTime endTime softEndTime.
      generate_random_time_window R now start_hour end_hour window_duration_minutes (Some h)
        fixed_minute g = Inr ((startTime, softStartTime, endTime, softEndTime), g') \<longrightarrow>
      g' = g \<and>
      (\<exists>date. matches ''####-##-##'' date \<and>
         startTime = date @ ''T'' @ zfill 2 (str_int h) @ '':00:00.000Z''))
   \<and> generate_random_time_window R now start_hour end_hour window_duration_minutes fixed_hour
        fixed_minute g
     = generate_random_time_window R now start_hour end_hour window_duration_minutes fixed_hour
        fixed_minute' g
   \<and> (\<forall>g' startTime softStartTime endTime softEndTime.
      rnd_in_range R \<and>
      generate_random_time_window R now start_hour end_hour window_duration_minutes None
        fixed_minute g = Inr ((startTime, softStartTime, endTime, softEndTime), g') \<longrightarrow>
      (\<exists>h date. randint R start_hour (end_hour - 1) g = Inr (h, g') \<and>
         start_hour \<le> h \<and> h < end_hour \<and> matches ''####-##-##'' date \<and>
         startTime = date @ ''T'' @ zfill 2 (str_int h) @ '':00:00.000Z''))
   \<and> (\<forall>rows.
      pickup_hour a = Some 8 \<and> generate_shipments_rows R clock fstr a g0 = Inr rows \<longrightarrow>
      length rows = nat (num_shipments a) \<and>
      (\<forall>r \<in> set rows. \<exists>s. map_of r ''deliveryStartTime'' = Some s \<and>
         matches ''####-##-##T08:00:00.000Z'' s))
   \<and> (pickup_hour a = Some 8 \<and> rnd_in_range R \<and> lon_divisor R (delivery_center_lat a) \<noteq> 0 \<and>
      1 \<le> max_pallets a \<and>
      (\<forall>i < nat (num_shipments a).
         valid_datetime (clock i) \<and> dt_ordinal (clock i) + 3 \<le> MAXORDINAL) \<longrightarrow>
      (\<exists>rows. generate_shipments_rows R clock fstr a g0 = Inr rows))"
proof (intro conjI allI impI)
  fix h g' startTime softStartTime endTime softEndTime
  assume w: "generate_random_time_window R now start_hour end_hour window_duration_minutes
      (Some h) fixed_minute g = Inr ((startTime, softStartTime, endTime, softEndTime), g')"
  from w obtain h' date where
    "selected_hour R start_hour end_hour (Some h) g = Inr (h', g')"
    and d: "matches ''####-##-##'' date"
      "startTime = date @ ''T'' @ zfill 2 (str_int h') @ '':00:00.000Z''"
    by (rule window_start_string)
  then have "h' = h" "g' = g" by (simp_all add: selected_hour_def)
  with d show "g' = g"
    "\<exists>date. matches ''####-##-##'' date \<and>
         startTime = date @ ''T'' @ zfill 2 (str_int h) @ '':00:00.000Z''"
    by auto
next
  show "generate_random_time_window R now start_hour end_hour window_duration_minutes fixed_hour
        fixed_minute g
     = generate_random_time_window R now start_hour end_hour window_duration_minutes fixed_hour
        fixed_minute' g"
    by (simp add: generate_random_time_window_def time_window_bounds_def)
next
  fix g' startTime softStartTime endTime softEndTime
  assume "rnd_in_range R \<and>
      generate_random_time_window R now start_hour end_hour window_duration_minutes None
        fixed_minute g = Inr ((startTime, softStartTime, endTime, softEndTime), g')"
  then have R: "rnd_in_range R" and w: "generate_random_time_window R now start_hour end_hour
      window_duration_minutes None fixed_minute g
        = Inr ((startTime, softStartTime, endTime, softEndTime), g')"
    by simp_all
  from w obtain h date where
    h: "selected_hour R start_hour end_hour None g = Inr (h, g')"
    and d: "matches ''####-##-##'' date"
      "startTime = date @ ''T'' @ zfill 2 (str_int h) @ '':00:00.000Z''"
    by (rule window_start_string)
  from selected_hour_random [OF R h] d
  show "\<exists>h date. randint R start_hour (end_hour - 1) g = Inr (h, g') \<and>
         start_hour \<le> h \<and> h < end_hour \<and> matches ''####-##-##'' date \<and>
         startTime = date @ ''T'' @ zfill 2 (str_int h) @ '':00:00.000Z''"
    by blast
next
  fix rows
  assume "pickup_hour a = Some 8 \<and> generate_shipments_rows R clock fstr a g0 = Inr rows"
  then have p: "pickup_hour a = Some 8"
    and rows: "generate_shipments_rows R clock fstr a g0 = Inr rows" by simp_all
  from generate_shipments_rows_Inr(1) [OF rows]
  show "length rows = nat (num_shipments a)" .
  show "\<forall>r \<in> set rows. \<exists>s. map_of r ''deliveryStartTime'' = Some s \<and>
         matches ''####-##-##T08:00:00.000Z'' s"
  proof
    fix r assume "r \<in> set rows"
  from generate_shipments_rows_Inr(2) [OF rows this] obtain k coords tw np g1 g2 where
    w: "generate_random_time_window R (clock k) 6 22 60 (pickup_hour a) (pickup_minute a) g1
          = Inr (tw, g2)"
    and r: "r = shipment_row fstr a k coords tw np" by blast
  obtain s ss e se where tw: "tw = (s, ss, e, se)" by (cases tw) auto
  from w [unfolded tw p] obtain h date where
    "selected_hour R 6 22 (Some 8) g1 = Inr (h, g2)"
    and d: "matches ''####-##-##'' date"
      "s = date @ ''T'' @ zfill 2 (str_int h) @ '':00:00.000Z''"
    by (rule window_start_string)
  then have "h = 8" by (simp add: selected_hour_def)
  with d matches_hour_8 have "matches ''####-##-##T08:00:00.000Z'' s" by simp
  then show "\<exists>s. map_of r ''deliveryStartTime'' = Some s \<and>
         matches ''####-##-##T08:00:00.000Z'' s"
    by (simp add: r tw shipment_row_delivery_start)
  qed
next
  assume c: "pickup_hour a = Some 8 \<and> rnd_in_range R \<and> lon_divisor R (delivery_center_lat a) \<noteq> 0 \<and>
      1 \<le> max_pallets a \<and>
      (\<forall>i < nat (num_shipments a).
         valid_datetime (clock i) \<and> dt_ordinal (clock i) + 3 \<le> MAXORDINAL)"
  then have "case pickup_hour a of Some h \<Rightarrow> 0 \<le> h \<and> h \<le> 23 | None \<Rightarrow> True" by simp
  with c show "\<exists>rows. generate_shipments_rows R clock fstr a g0 = Inr rows"
    by (intro generate_shipments_rows_succeed) simp_all
qed

theorem window_hour_selection_witness:
  "generate_random_time_window test_source (test_clock 0) 6 22 60 (Some 8) 0 (0::nat)
     = Inr ((''2026-11-05T08:00:00.000Z'', ''2026-11-05T08:00:00.000Z'',
             ''2026-11-05T09:00:00.000Z'', ''2026-11-05T09:00:00.000Z''), 0)
   \<and> (\<exists>date. matches ''####-##-##'' date \<and>
         ''2026-11-05T08:00:00.000Z'' = date @ ''T'' @ zfill 2 (str_int 8) @ '':00:00.000Z'')
   \<and> generate_random_time_window test_source (test_clock 0) 6 22 60 (Some 8) 0 (0::nat)
     = generate_random_time_window test_source (test_clock 0) 6 22 60 (Some 8) 59 0
   \<and> rnd_in_range test_source
   \<and> generate_random_time_window test_source (test_clock 0) 6 22 60 None 0 (5::nat)
     = Inr ((''2026-11-05T11:00:00.000Z'', ''2026-11-05T11:00:00.000Z'',
             ''2026-11-05T12:00:00.000Z'', ''2026-11-05T12:00:00.000Z''), 6)
   \<and> (\<exists>h date. randint test_source 6 (22 - 1) (5::nat) = Inr (h, 6) \<and>
         6 \<le> h \<and> h < 22 \<and> matches ''####-##-##'' date \<and>
         ''2026-11-05T11:00:00.000Z'' = date @ ''T'' @ zfill 2 (str_int h) @ '':00:00.000Z'')
   \<and> pickup_hour test_args = Some 8
   \<and> (\<exists>rows. generate_shipments_rows test_source test_clock test_fstr test_args (0::nat)
         = Inr rows \<and> length rows = 2 \<and>
         (\<forall>r \<in> set rows. \<exists>s. map_of r ''deliveryStartTime'' = Some s \<and>
            matches ''####-##-##T08:00:00.000Z'' s))"
proof -
  note A = window_hour_selection [where R = test_source and now = "test_clock 0"
      and start_hour = 6 and end_hour = 22 and window_duration_minutes = 60
      and fixed_minute = 0 and fixed_minute' = 59 and fixed_hour = "Some 8" and g = "0::nat"
      and a = test_args and clock = test_clock and fstr = test_fstr and ?g0.0 = "0::nat"]
  note B = window_hour_selection [where R = test_source and now = "test_clock 0"
      and start_hour = 6 and end_hour = 22 and window_duration_minutes = 60
      and fixed_minute = 0 and fixed_minute' = 59 and fixed_hour = "Some 8" and g = "5::nat"
      and a = test_args and clock = test_clock and fstr = test_fstr and ?g0.0 = "0::nat"]
  have c: "\<forall>i < nat (num_shipments test_args).
         valid_datetime (test_clock i) \<and> dt_ordinal (test_clock i) + 3 \<le> MAXORDINAL"
    using valid_test_clock by (simp add: test_clock_def MAXORDINAL_def)
  have p: "pickup_hour test_args = Some 8" "(1::int) \<le> max_pallets test_args"
    "lon_divisor test_source (delivery_center_lat test_args) \<noteq> 0"
    by (simp_all add: test_args_fields lon_divisor_0)
  from A test_window [of 0 0]
  have 1: "\<exists>date. matches ''####-##-##'' date \<and>
         ''2026-11-05T08:00:00.000Z'' = date @ ''T'' @ zfill 2 (str_int 8) @ '':00:00.000Z''"
    by blast
  from A have 2: "generate_random_time_window test_source (test_clock 0) 6 22 60 (Some 8) 0 (0::nat)
     = generate_random_time_window test_source (test_clock 0) 6 22 60 (Some 8) 59 0"
    by blast
  from B test_window_random rnd_in_range_test_source
  have 3: "\<exists>h date. randint test_source 6 (22 - 1) (5::nat) = Inr (h, 6) \<and>
         6 \<le> h \<and> h < 22 \<and> matches ''####-##-##'' date \<and>
         ''2026-11-05T11:00:00.000Z'' = date @ ''T'' @ zfill 2 (str_int h) @ '':00:00.000Z''"
    by blast
  from A p c rnd_in_range_test_source
  have "\<exists>rows. generate_shipments_rows test_source test_clock test_fstr test_args (0::nat)
         = Inr rows"
    by blast
  then obtain rows where r: "generate_shipments_rows test_source test_clock test_fstr test_args
      (0::nat) = Inr rows" ..
  with A p(1) have "length rows = nat (num_shipments test_args) \<and>
      (\<forall>r \<in> set rows. \<exists>s. map_of r ''deliveryStartTime'' = Some s \<and>
            matches ''####-##-##T08:00:00.000Z'' s)"
    by blast
  with r have 4: "\<exists>rows. generate_shipments_rows test_source test_clock test_fstr test_args (0::nat)
         = Inr rows \<and> length rows = 2 \<and>
         (\<forall>r \<in> set rows. \<exists>s. map_of r ''deliveryStartTime'' = Some s \<and>
            matches ''####-##-##T08:00:00.000Z'' s)"
    by (auto simp: test_args_fields)
  from 1 2 3 4 p(1) test_window [of 0 0] test_window_random rnd_in_range_test_source
  show ?thesis by blast
qed



text \<open>
  Claim C3, as the code has it. A run of the shipment generator that returns writes
  \<open>num_shipments + 1\<close> records for \<open>num_shipments \<ge> 0\<close> (what a CSV reader counts: line
  ends inside quoted fields would not count, and the header is the first record), and
  every record has 30 comma-delimited fields, a quoted waypoint counting as one. The run
  returns under the conditions named in claim C5. The vehicle generator always returns;
  its header and every other record have 31 fields.
\<close>

theorem csv_record_and_field_counts:
  "(\<forall>out. 0 \<le> num_shipments a \<and> generate_shipments_csv R clock fstr a g0 = Inr out \<longrightarrow>
      int (csv_records out) = num_shipments a + 1 \<and>
      int (length (csv_lines out)) = num_shipments a + 1 \<and>
      hd (csv_lines out) = csv_join shipment_headers \<and>
      length shipment_headers = 30 \<and>
      (\<forall>line \<in> set (csv_lines out). csv_field_count line = 30))
   \<and> (rnd_in_range R \<and> lon_divisor R (delivery_center_lat a) \<noteq> 0 \<and> 1 \<le> max_pallets a \<and>
      (case pickup_hour a of Some h \<Rightarrow> 0 \<le> h \<and> h \<le> 23 | None \<Rightarrow> True) \<and>
      (\<forall>i < nat (num_shipments a).
         valid_datetime (clock i) \<and> dt_ordinal (clock i) + 3 \<le> MAXORDINAL) \<longrightarrow>
      (\<exists>out. generate_shipments_csv R clock fstr a g0 = Inr out))
   \<and> (\<exists>vout. generate_vehicles_csv fstr num_vehicles dlat dlon capacity_pallets use_if_empty
          = Inr vout \<and>
        csv_records vout = nat num_vehicles + 1 \<and>
        hd (csv_lines vout) = csv_join vehicle_headers \<and>
        length vehicle_headers = 31 \<and>
        (\<forall>line \<in> set (csv_lines vout). csv_field_count line = 31))"
proof (intro conjI allI impI)
  fix out
  assume "0 \<le> num_shipments a \<and> generate_shipments_csv R clock fstr a g0 = Inr out"
  then have n: "0 \<le> num_shipments a"
    and out: "generate_shipments_csv R clock fstr a g0 = Inr out" by simp_all
  from out obtain rows where rows: "generate_shipments_rows R clock fstr a g0 = Inr rows"
    and rec: "csv_records out = Suc (length rows)"
    and lines: "csv_lines out = csv_join shipment_headers # map (\<lambda>r. csv_join (map snd r)) rows"
    and cnt: "\<forall>line \<in> set (csv_lines out). csv_field_count line = 30"
    by (rule generate_shipments_csv_Inr)
  from generate_shipments_rows_Inr(1) [OF rows] n
  have len: "int (length rows) = num_shipments a" by simp
  from rec len show "int (csv_records out) = num_shipments a + 1" by simp
  from lines len show "int (length (csv_lines out)) = num_shipments a + 1" by simp
  from lines show "hd (csv_lines out) = csv_join shipment_headers" by simp
  show "length shipment_headers = 30" by (rule shipment_headers_distinct(2))
  from cnt show "\<forall>line \<in> set (csv_lines out). csv_field_count line = 30" .
next
  assume "rnd_in_range R \<and> lon_divisor R (delivery_center_lat a) \<noteq> 0 \<and> 1 \<le> max_pallets a \<and>
      (case pickup_hour a of Some h \<Rightarrow> 0 \<le> h \<and> h \<le> 23 | None \<Rightarrow> True) \<and>
      (\<forall>i < nat (num_shipments a).
         valid_datetime (clock i) \<and> dt_ordinal (clock i) + 3 \<le> MAXORDINAL)"
  then have "\<exists>rows. generate_shipments_rows R clock fstr a g0 = Inr rows"
    by (intro generate_shipments_rows_succeed) simp_all
  then obtain rows where "generate_shipments_rows R clock fstr a g0 = Inr rows" ..
  from generate_shipments_csv_written [OF this]
  show "\<exists>out. generate_shipments_csv R clock fstr a g0 = Inr out" by blast
next
  from generate_vehicles_csv_written [of fstr num_vehicles dlat dlon capacity_pallets use_if_empty]
  obtain vout where
    "generate_vehicles_csv fstr num_vehicles dlat dlon capacity_pallets use_if_empty = Inr vout"
    "csv_records vout = Suc (nat num_vehicles)"
    "csv_lines vout = csv_join vehicle_headers
          # map (\<lambda>r. csv_join (map snd r))
              (vehicle_rows fstr num_vehicles dlat dlon capacity_pallets use_if_empty)"
    "\<forall>line \<in> set (csv_lines vout). csv_field_count line = 31"
    by blast
  then show "\<exists>vout. generate_vehicles_csv fstr num_vehicles dlat dlon capacity_pallets use_if_empty
          = Inr vout \<and>
        csv_records vout = nat num_vehicles + 1 \<and>
        hd (csv_lines vout) = csv_join vehicle_headers \<and>
        length vehicle_headers = 31 \<and>
        (\<forall>line \<in> set (csv_lines vout). csv_field_count line = 31)"
    by (intro exI [of _ vout]) (simp add: vehicle_headers_distinct(2))
qed

theorem csv_record_and_field_counts_witness:
  "0 \<le> num_shipments test_args \<and>
   (\<exists>out. generate_shipments_csv test_source test_clock test_fstr test_args (0::nat) = Inr out \<and>
      csv_records out = 3 \<and> length (csv_lines out) = 3 \<and>
      hd (csv_lines out) = csv_join shipment_headers \<and>
      (\<forall>line \<in> set (csv_lines out). csv_field_count line = 30)) \<and>
   (\<exists>vout. generate_vehicles_csv test_fstr 2 44.5279615 26.1798147 100 False = Inr vout \<and>
      csv_records vout = 3 \<and>
      (\<forall>line \<in> set (csv_lines vout). csv_field_count line = 31))"
proof -
  note T = csv_record_and_field_counts [where R = test_source and clock = test_clock
      and fstr = test_fstr and a = test_args and ?g0.0 = "0::nat" and num_vehicles = 2
      and dlat = "44.5279615" and dlon = "26.1798147" and capacity_pallets = 100
      and use_if_empty = False]
  have c: "\<forall>i < nat (num_shipments test_args).
         valid_datetime (test_clock i) \<and> dt_ordinal (test_clock i) + 3 \<le> MAXORDINAL"
    using valid_test_clock by (simp add: test_clock_def MAXORDINAL_def)
  have p: "case pickup_hour test_args of Some h \<Rightarrow> 0 \<le> h \<and> h \<le> 23 | None \<Rightarrow> True"
    "(1::int) \<le> max_pallets test_args" "lon_divisor test_source (delivery_center_lat test_args) \<noteq> 0"
    "0 \<le> num_shipments test_args" "num_shipments test_args = 2"
    by (simp_all add: test_args_fields lon_divisor_0)
  from T p(1-3) c rnd_in_range_test_source
  have "\<exists>out. generate_shipments_csv test_source test_clock test_fstr test_args (0::nat) = Inr out"
    by blast
  then obtain out where
    out: "generate_shipments_csv test_source test_clock test_fstr test_args (0::nat) = Inr out" ..
  with T p(4) have "int (csv_records out) = num_shipments test_args + 1 \<and>
      int (length (csv_lines out)) = num_shipments test_args + 1 \<and>
      hd (csv_lines out) = csv_join shipment_headers \<and>
      (\<forall>line \<in> set (csv_lines out). csv_field_count line = 30)"
    by blast
  then have 1: "csv_records out = 3 \<and> length (csv_lines out) = 3 \<and>
      hd (csv_lines out) = csv_join shipment_headers \<and>
      (\<forall>line \<in> set (csv_lines out). csv_field_count line = 30)"
    unfolding p(5) by simp
  from T have 2: "\<exists>vout. generate_vehicles_csv test_fstr 2 44.5279615 26.1798147 100 False = Inr vout \<and>
        csv_records vout = nat 2 + 1 \<and>
        hd (csv_lines vout) = csv_join vehicle_headers \<and>
        length vehicle_headers = 31 \<and>
        (\<forall>line \<in> set (csv_lines vout). csv_field_count line = 31)"
    by blast
  from 1 2 out p(4) show ?thesis by auto
qed

text \<open>
  The test run writes three records (the header and two shipments) of 30 fields each, not
  29; the second record is shown field by field. A vehicle file has 31 fields in its
  header and in every row, not 30.
\<close>

lemma test_row_0_fields:
  "map snd (shipment_row test_fstr test_args 0 (-0.07207207, 26.03686204)
            (''2026-11-05T08:00:00.000Z'', ''2026-11-05T08:00:00.000Z'',
             ''2026-11-05T09:00:00.000Z'', ''2026-11-05T09:00:00.000Z'') 5)
   = [''Order - 1'', ''200'', ''44.5279615, 26.1798147'', ''0'', [], [], [], [], [], [], [], [],
      ''-0.07207207, 26.03686204'', ''600'', [],
      ''2026-11-05T08:00:00.000Z'', ''2026-11-05T08:00:00.000Z'',
      ''2026-11-05T09:00:00.000Z'', ''2026-11-05T09:00:00.000Z'',
      ''1000'', ''1000'', ''pallets'', ''5'', [], [], [], [], [], [], []]"
  unfolding shipment_row_def waypoint_def prod.case test_args_fields test_fstr_values
  by (simp add: str_eval)

theorem shipment_records_have_30_fields:
  "isl (generate_shipments_csv test_source test_clock test_fstr test_args (0::nat)) = False \<and>
   map csv_field_count
     (csv_lines (projr (generate_shipments_csv test_source test_clock test_fstr test_args (0::nat))))
     = [30, 30, 30] \<and>
   csv_lines (projr (generate_shipments_csv test_source test_clock test_fstr test_args (0::nat))) ! 1
     = csv_join
        [''Order - 1'', ''200'', ''44.5279615, 26.1798147'', ''0'', [], [], [], [], [], [], [], [],
         ''-0.07207207, 26.03686204'', ''600'', [],
         ''2026-11-05T08:00:00.000Z'', ''2026-11-05T08:00:00.000Z'',
         ''2026-11-05T09:00:00.000Z'', ''2026-11-05T09:00:00.000Z'',
         ''1000'', ''1000'', ''pallets'', ''5'', [], [], [], [], [], [], []] \<and>
   isl (generate_vehicles_csv test_fstr 1 44.5279615 26.1798147 100 False) = False \<and>
   map csv_field_count
     (csv_lines (projr (generate_vehicles_csv test_fstr 1 44.5279615 26.1798147 100 False)))
     = [31, 31] \<and>
   length vehicle_headers = 31"
proof -
  from generate_shipments_csv_written [OF test_rows [of 0]] obtain out where
    out: "generate_shipments_csv test_source test_clock test_fstr test_args (0::nat) = Inr out"
    and lines: "csv_lines out = csv_join shipment_headers # map (\<lambda>r. csv_join (map snd r))
       [shipment_row test_fstr test_args 0 (-0.07207207, 26.03686204)
            (''2026-11-05T08:00:00.000Z'', ''2026-11-05T08:00:00.000Z'',
             ''2026-11-05T09:00:00.000Z'', ''2026-11-05T09:00:00.000Z'') 5,
        shipment_row test_fstr test_args 1 (-0.04504505, 26.06388906)
            (''2026-11-05T08:00:00.000Z'', ''2026-11-05T08:00:00.000Z'',
             ''2026-11-05T09:00:00.000Z'', ''2026-11-05T09:00:00.000Z'') 8]"
    and cnt: "\<forall>line \<in> set (csv_lines out). csv_field_count line = 30"
    by blast
  from lines cnt have 1: "map csv_field_count (csv_lines out) = [30, 30, 30]" by simp
  from lines have 2: "csv_lines out ! 1 = csv_join (map snd
       (shipment_row test_fstr test_args 0 (-0.07207207, 26.03686204)
            (''2026-11-05T08:00:00.000Z'', ''2026-11-05T08:00:00.000Z'',
             ''2026-11-05T09:00:00.000Z'', ''2026-11-05T09:00:00.000Z'') 5))"
    by simp
  from generate_vehicles_csv_written [of test_fstr 1 "44.5279615" "26.1798147" 100 False]
  obtain vout where
    vout: "generate_vehicles_csv test_fstr 1 44.5279615 26.1798147 100 False = Inr vout"
    and vlines: "csv_lines vout = csv_join vehicle_headers
          # map (\<lambda>r. csv_join (map snd r)) (vehicle_rows test_fstr 1 44.5279615 26.1798147 100 False)"
    and vcnt: "\<forall>line \<in> set (csv_lines vout). csv_field_count line = 31"
    by blast
  have "length (csv_lines vout) = 2" unfolding vlines by (simp add: vehicle_rows_length)
  then obtain l0 l1 where "csv_lines vout = [l0, l1]"
    by (cases "csv_lines vout"; cases "tl (csv_lines vout)") auto
  with vcnt have 3: "map csv_field_count (csv_lines vout) = [31, 31]" by simp
  show ?thesis
    unfolding out vout sum.sel 2 [unfolded test_row_0_fields] 1 3
    by (simp add: vehicle_headers_distinct(2))
qed

lemma replace_hour_00_after_add:
  "replace_hour_00 (now\<lparr>dt_ordinal := k\<rparr>) h =
     (if 0 \<le> h \<and> h \<le> 23
      then Inr \<lparr>dt_ordinal = k, dt_hour = h, dt_minute = 0, dt_second = 0, dt_microsecond = 0\<rparr>
      else Inl ValueError)"
  by (cases now) (simp add: replace_hour_00_def)

lemma time_window_bounds_date_only:
  assumes "valid_datetime now" "valid_datetime now'" "dt_ordinal now = dt_ordinal now'"
  shows "time_window_bounds R now sh eh dur fh fm g = time_window_bounds R now' sh eh dur fh fm g"
proof -
  have one_day: "mk_timedelta 1 0 0 = Inr \<lparr>td_days = 1, td_seconds = 0, td_microseconds = 0\<rparr>"
    by (simp add: mk_timedelta_def)
  note t1 = datetime_add_whole_days [OF assms(1), of 1]
  note t2 = datetime_add_whole_days [OF assms(2), of 1, folded assms(3)]
  show ?thesis
  proof (cases "selected_hour R sh eh fh g")
    case (Inl e)
    then show ?thesis by (simp add: time_window_bounds_def)
  next
    case (Inr p)
    obtain h g' where p: "p = (h, g')" by (cases p) auto
    show ?thesis
      unfolding time_window_bounds_def Inr p one_day sum.case prod.case t1 t2
      by (simp add: replace_hour_00_after_add)
  qed
qed

lemma shipment_rows_date_only:
  assumes "\<forall>i \<in> set is. valid_datetime (clock1 i) \<and> valid_datetime (clock2 i) \<and>
             dt_ordinal (clock1 i) = dt_ordinal (clock2 i)"
  shows "shipment_rows R clock1 fstr a is g = shipment_rows R clock2 fstr a is g"
  using assms
proof (induction "is" arbitrary: g)
  case Nil
  show ?case by simp
next
  case (Cons i "is")
  from Cons.prems have "valid_datetime (clock1 i)" "valid_datetime (clock2 i)"
    "dt_ordinal (clock1 i) = dt_ordinal (clock2 i)" by simp_all
  then have w: "\<And>g. generate_random_time_window R (clock1 i) 6 22 60 (pickup_hour a)
        (pickup_minute a) g
      = generate_random_time_window R (clock2 i) 6 22 60 (pickup_hour a) (pickup_minute a) g"
    unfolding generate_random_time_window_def
    by (simp only: time_window_bounds_date_only [of "clock1 i" "clock2 i"])
  from Cons.prems have "\<forall>i \<in> set is. valid_datetime (clock1 i) \<and> valid_datetime (clock2 i) \<and>
             dt_ordinal (clock1 i) = dt_ordinal (clock2 i)" by simp
  from Cons.IH [OF this] have ih: "\<And>g. shipment_rows R clock1 fstr a is g
      = shipment_rows R clock2 fstr a is g" .
  show ?case by (simp add: w ih split: sum.splits prod.splits)
qed

text \<open>
  Claim C2, as the code has it. The file is a function of the seed, the parameters and
  the local dates the clock shows while the rows are built: two runs with the same seed
  and parameters, whatever the generator's state before them, write the same file when
  their clock readings fall on the same dates, row by row. (Each row's window is on the
  day after the reading of \<^verbatim>\<open>datetime.now()\<close>, so runs on different days differ.)
\<close>

theorem same_seed_and_dates_same_file:
  assumes "seed a = Some s"
    and "\<forall>i < nat (num_shipments a). valid_datetime (clock1 i) \<and> valid_datetime (clock2 i) \<and>
           dt_ordinal (clock1 i) = dt_ordinal (clock2 i)"
  shows "generate_shipments_csv R clock1 fstr a g0 = generate_shipments_csv R clock2 fstr a g0'"
proof -
  from assms(2) have "\<forall>i \<in> set [0 ..< nat (num_shipments a)].
      valid_datetime (clock1 i) \<and> valid_datetime (clock2 i) \<and>
      dt_ordinal (clock1 i) = dt_ordinal (clock2 i)" by simp
  from shipment_rows_date_only [OF this]
  have "generate_shipments_rows R clock1 fstr a g0 = generate_shipments_rows R clock2 fstr a g0'"
    by (simp add: generate_shipments_rows_def assms(1))
  then show ?thesis by (simp add: generate_shipments_csv_def)
qed

lemma valid_test_clock_morning: "valid_datetime (test_clock_morning i)"
proof -
  have "i mod 1000 < 1000" by simp
  then have "int (i mod 1000) \<le> 999999" by linarith
  then show ?thesis by (simp add: valid_datetime_def test_clock_morning_def MAXORDINAL_def)
qed

theorem same_seed_and_dates_same_file_witness:
  "seed test_args = Some 42 \<and>
   generate_shipments_csv test_source test_clock test_fstr test_args (0::nat)
     = generate_shipments_csv test_source test_clock_morning test_fstr test_args 7 \<and>
   isl (generate_shipments_csv test_source test_clock test_fstr test_args (0::nat)) = False"
proof -
  have c: "\<forall>i < nat (num_shipments test_args).
      valid_datetime (test_clock i) \<and> valid_datetime (test_clock_morning i) \<and>
      dt_ordinal (test_clock i) = dt_ordinal (test_clock_morning i)"
    using valid_test_clock valid_test_clock_morning
    by (simp add: test_clock_def test_clock_morning_def)
  from generate_shipments_csv_written [OF test_rows [of 0]]
  have "isl (generate_shipments_csv test_source test_clock test_fstr test_args (0::nat)) = False"
    by auto
  with same_seed_and_dates_same_file [OF test_args_fields(11) c, of test_source test_fstr 0 7]
  show ?thesis by (simp add: test_args_fields)
qed

text \<open>
  The same seed and parameters a minute later, after midnight: the test run at
  2026-11-04 23:59:30 dates its windows 2026-11-05, the run at 2026-11-05 00:00:30 dates
  them 2026-11-06, and the two files differ.
\<close>

lemma valid_test_clock_next_day: "valid_datetime (test_clock_next_day i)"
proof -
  have "i mod 1000 < 1000" by simp
  then have "int (i mod 1000) \<le> 999999" by linarith
  then show ?thesis by (simp add: valid_datetime_def test_clock_next_day_def MAXORDINAL_def)
qed

lemma test_window_next_day:
  "generate_random_time_window test_source (test_clock_next_day i) 6 22 60 (Some 8) 0 g =
     Inr ((''2026-11-06T08:00:00.000Z'', ''2026-11-06T08:00:00.000Z'',
           ''2026-11-06T09:00:00.000Z'', ''2026-11-06T09:00:00.000Z''), g)"
proof -
  have one_day: "mk_timedelta 1 0 0 = Inr \<lparr>td_days = 1, td_seconds = 0, td_microseconds = 0\<rparr>"
    by (simp add: mk_timedelta_def)
  have tomorrow: "datetime_add (test_clock_next_day i)
        \<lparr>td_days = 1, td_seconds = 0, td_microseconds = 0\<rparr>
      = Inr ((test_clock_next_day i)\<lparr>dt_ordinal := 739926\<rparr>)"
    using datetime_add_whole_days [OF valid_test_clock_next_day, of i 1]
    by (simp add: test_clock_next_day_def MAXORDINAL_def)
  have b: "time_window_bounds test_source (test_clock_next_day i) 6 22 60 (Some 8) 0 g =
     Inr ((\<lparr>dt_ordinal = 739926, dt_hour = 8, dt_minute = 0, dt_second = 0, dt_microsecond = 0\<rparr>,
           \<lparr>dt_ordinal = 739926, dt_hour = 9, dt_minute = 0, dt_second = 0, dt_microsecond = 0\<rparr>), g)"
    unfolding time_window_bounds_def selected_hour_def
    by (simp add: one_day tomorrow)
       (simp add: mk_timedelta_def datetime_add_def test_clock_next_day_def MAXORDINAL_def
          replace_hour_00_def Let_def)
  have s: "strftime_iso \<lparr>dt_ordinal = 739926, dt_hour = 8, dt_minute = 0, dt_second = 0, dt_microsecond = 0\<rparr>
     = ''2026-11-06T08:00:00.000Z''"
    "strftime_iso \<lparr>dt_ordinal = 739926, dt_hour = 9, dt_minute = 0, dt_second = 0, dt_microsecond = 0\<rparr>
     = ''2026-11-06T09:00:00.000Z''"
    by (simp_all add: strftime_iso_def ord2ymd_def month_of_yday_def DAYS_BEFORE_MONTH_def
      DAYS_IN_MONTH_def Let_def str_eval)
  show ?thesis
    by (simp add: generate_random_time_window_def b s Let_def)
qed

lemma test_rows_next_day:
  "generate_shipments_rows test_source test_clock_next_day test_fstr test_args g0 =
     Inr [shipment_row test_fstr test_args 0 (-0.07207207, 26.03686204)
            (''2026-11-06T08:00:00.000Z'', ''2026-11-06T08:00:00.000Z'',
             ''2026-11-06T09:00:00.000Z'', ''2026-11-06T09:00:00.000Z'') 5,
          shipment_row test_fstr test_args 1 (-0.04504505, 26.06388906)
            (''2026-11-06T08:00:00.000Z'', ''2026-11-06T08:00:00.000Z'',
             ''2026-11-06T09:00:00.000Z'', ''2026-11-06T09:00:00.000Z'') 8]"
proof -
  have s: "rnd_seed test_source 42 = 42" by (simp add: test_source_def)
  show ?thesis
    unfolding generate_shipments_rows_def Let_def test_args_fields option.case s upt_0_2
      shipment_rows.simps test_coords_42 test_coords_45 test_window_next_day test_pallets
      sum.case prod.case
    by (rule refl)
qed

theorem same_seed_next_day_other_file:
  "seed test_args = Some 42 \<and>
   generate_shipments_csv test_source test_clock test_fstr test_args (0::nat)
     \<noteq> generate_shipments_csv test_source test_clock_next_day test_fstr test_args 0 \<and>
   map_of (hd (projr (generate_shipments_rows test_source test_clock test_fstr test_args (0::nat))))
     ''deliveryStartTime'' = Some ''2026-11-05T08:00:00.000Z'' \<and>
   map_of (hd (projr (generate_shipments_rows test_source test_clock_next_day test_fstr
     test_args (0::nat)))) ''deliveryStartTime'' = Some ''2026-11-06T08:00:00.000Z''"
proof -
  let ?r = "\<lambda>tw. shipment_row test_fstr test_args 0 (-0.07207207, 26.03686204) tw 5"
  let ?tw1 = "(''2026-11-05T08:00:00.000Z'', ''2026-11-05T08:00:00.000Z'',
               ''2026-11-05T09:00:00.000Z'', ''2026-11-05T09:00:00.000Z'')"
  let ?tw2 = "(''2026-11-06T08:00:00.000Z'', ''2026-11-06T08:00:00.000Z'',
               ''2026-11-06T09:00:00.000Z'', ''2026-11-06T09:00:00.000Z'')"
  from generate_shipments_csv_written [OF test_rows [of 0]] obtain out1 where
    o1: "generate_shipments_csv test_source test_clock test_fstr test_args (0::nat) = Inr out1"
    and l1: "csv_lines out1 ! 1 = csv_join (map snd (?r ?tw1))"
    by auto
  from generate_shipments_csv_written [OF test_rows_next_day [of 0]] obtain out2 where
    o2: "generate_shipments_csv test_source test_clock_next_day test_fstr test_args (0::nat)
           = Inr out2"
    and l2: "csv_lines out2 ! 1 = csv_join (map snd (?r ?tw2))"
    by auto
  have f2: "map snd (?r ?tw2)
   = [''Order - 1'', ''200'', ''44.5279615, 26.1798147'', ''0'', [], [], [], [], [], [], [], [],
      ''-0.07207207, 26.03686204'', ''600'', [],
      ''2026-11-06T08:00:00.000Z'', ''2026-11-06T08:00:00.000Z'',
      ''2026-11-06T09:00:00.000Z'', ''2026-11-06T09:00:00.000Z'',
      ''1000'', ''1000'', ''pallets'', ''5'', [], [], [], [], [], [], []]"
    unfolding shipment_row_def waypoint_def prod.case test_args_fields test_fstr_values
    by (simp add: str_eval)
  have "csv_join (map snd (?r ?tw1)) \<noteq> csv_join (map snd (?r ?tw2))"
    unfolding test_row_0_fields f2
    by (simp add: csv_field_def csv_special_def)
  with l1 l2 have "out1 \<noteq> out2" by auto
  with o1 o2 show ?thesis
    unfolding test_rows test_rows_next_day sum.sel list.sel
    by (simp add: shipment_row_delivery_times test_args_fields)
qed

text \<open>
  Claim C1, as the code has it. For every centre and every \<open>square_size_km > 0\<close>, in every
  state of the random source: the point drawn lies within \<open>square_size_km/2/111\<close> of
  \<open>center_lat\<close> and within \<open>square_size_km/2/(111 * |c|)\<close> of \<open>center_lon\<close>, where \<open>c\<close> is the
  cosine the library computes for the centre, and the returned pair is that point rounded
  to 8 decimals, so it lies within the same bands widened by \<open>5 * 10^-9\<close>. With an exact
  library and a centre between the poles, \<open>c\<close> is the positive number \<open>cos(center_lat)\<close>
  of the claim.
\<close>

theorem coords_within_rounded_band:
  assumes "0 < size_km" and "rnd_in_range R"
    and "generate_random_coords R center_lat center_lon size_km g = Inr ((lat, lon), g')"
  shows "\<bar>lat - center_lat\<bar> \<le> size_km / 2 / 111 + 5 / 10 ^ 9 \<and>
         \<bar>lon - center_lon\<bar>
           \<le> size_km / 2 / (111 * \<bar>math_cos R (math_radians R center_lat)\<bar>) + 5 / 10 ^ 9 \<and>
         (exact_math R \<and> - 90 < center_lat \<and> center_lat < 90 \<longrightarrow>
            \<bar>lon - center_lon\<bar>
              \<le> size_km / 2 / (111 * cos (center_lat * pi / 180)) + 5 / 10 ^ 9) \<and>
         (\<exists>lat0 lon0.
            sample_coords R center_lat center_lon size_km g = Inr ((lat0, lon0), g') \<and>
            lat = py_round lat0 8 \<and> lon = py_round lon0 8 \<and>
            \<bar>lat0 - center_lat\<bar> \<le> size_km / 2 / 111 \<and>
            \<bar>lon0 - center_lon\<bar>
              \<le> size_km / 2 / (111 * \<bar>math_cos R (math_radians R center_lat)\<bar>))"
proof -
  from assms(3) obtain lat0 lon0 where
    s: "sample_coords R center_lat center_lon size_km g = Inr ((lat0, lon0), g')"
    and r: "lat = py_round lat0 8" "lon = py_round lon0 8"
    by (auto simp: generate_random_coords_def split: sum.splits prod.splits)
  from assms(1) have sq: "0 \<le> size_km" by simp
  note b = sample_coords_bounds [OF sq assms(2) s]
  have e: "\<bar>lat - lat0\<bar> \<le> 5 / 10 ^ 9" "\<bar>lon - lon0\<bar> \<le> 5 / 10 ^ 9"
    using py_round_error [of lat0 8] py_round_error [of lon0 8] by (simp_all add: r)
  have 1: "\<bar>lat - center_lat\<bar> \<le> size_km / 2 / 111 + 5 / 10 ^ 9"
    using b(1) e(1) by linarith
  have 2: "\<bar>lon - center_lon\<bar>
           \<le> size_km / 2 / (111 * \<bar>math_cos R (math_radians R center_lat)\<bar>) + 5 / 10 ^ 9"
    using b(2) e(2) by linarith
  have 3: "\<bar>lon - center_lon\<bar>
              \<le> size_km / 2 / (111 * cos (center_lat * pi / 180)) + 5 / 10 ^ 9"
    if "exact_math R \<and> - 90 < center_lat \<and> center_lat < 90"
  proof -
    from that have "0 < cos (radians center_lat)" by (simp add: cos_radians_pos)
    moreover from that have "math_cos R (math_radians R center_lat) = cos (radians center_lat)"
      by (simp add: exact_math_def)
    ultimately have "\<bar>math_cos R (math_radians R center_lat)\<bar> = cos (center_lat * pi / 180)"
      by (simp add: radians_def)
    with 2 show ?thesis by simp
  qed
  from 1 2 3 s r b show ?thesis by blast
qed

lemma exact_math_test_source: "exact_math test_source"
  by (simp add: exact_math_def test_source_def)

theorem coords_within_rounded_band_witness:
  "(0::real) < 20 \<and> rnd_in_range test_source \<and> exact_math test_source \<and>
   generate_random_coords test_source 0 26.0999251 20 (42::nat)
     = Inr ((-0.07207207, 26.03686204), 44) \<and>
   \<bar>- 0.07207207 - 0\<bar> \<le> (20::real) / 2 / 111 + 5 / 10 ^ 9 \<and>
   \<bar>26.03686204 - 26.0999251\<bar> \<le> (20::real) / 2 / (111 * cos (0 * pi / 180)) + 5 / 10 ^ 9"
proof -
  have p: "(0::real) < 20" by simp
  have c: "exact_math test_source \<and> - 90 < (0::real) \<and> (0::real) < 90"
    by (simp add: exact_math_test_source)
  from coords_within_rounded_band [OF p rnd_in_range_test_source test_coords_42] c
  have "\<bar>- 0.07207207 - 0\<bar> \<le> (20::real) / 2 / 111 + 5 / 10 ^ 9"
    "\<bar>26.03686204 - 26.0999251\<bar> \<le> (20::real) / 2 / (111 * cos (0 * pi / 180)) + 5 / 10 ^ 9"
    by blast+
  with p rnd_in_range_test_source exact_math_test_source test_coords_42 show ?thesis by blast
qed

text \<open>
  A centre on the equator, a square of 2 km and a draw of \<open>1 - 2^-24\<close> from
  \<^verbatim>\<open>random()\<close>: the point drawn is \<open>0.00900900793...\<close>, inside the band of half-width
  \<open>1/111 = 0.009009009...\<close>, and \<^verbatim>\<open>round(_, 8)\<close> returns \<open>0.00900901\<close>, outside it, in both
  coordinates.
\<close>

lemma rnd_in_range_high_source: "rnd_in_range high_source"
  by (simp add: rnd_in_range_def high_source_def)

theorem rounded_coords_leave_band:
  "(0::real) < 2 \<and> rnd_in_range high_source \<and>
   generate_random_coords high_source 0 0 2 (0::nat) = Inr ((0.00900901, 0.00900901), 2) \<and>
   \<not> \<bar>0.00900901 - 0\<bar> \<le> (2::real) / 2 / 111 \<and>
   \<not> \<bar>0.00900901 - 0\<bar> \<le> (2::real) / 2 / (111 * cos (0 * pi / 180))"
proof -
  have d: "lon_divisor high_source 0 = 111"
    by (simp add: lon_divisor_def radians_def high_source_def)
  have "generate_random_coords high_source 0 0 2 (0::nat) = Inr ((0.00900901, 0.00900901), 2)"
    unfolding generate_random_coords_def sample_coords_def lon_offset_def d
    by (simp add: uniform_def high_source_def lat_offset_def py_round_def round_half_even_def
        Let_def)
  then show ?thesis
    by (simp add: rnd_in_range_high_source)
qed

lemma generate_random_coords_Inl:
  "generate_random_coords R clat clon sq g = Inl e \<longleftrightarrow>
     e = ZeroDivisionError \<and> math_cos R (math_radians R clat) = 0"
  by (auto simp: generate_random_coords_def sample_coords_def lon_divisor_def
      split: sum.splits prod.splits)

lemma generate_shipments_csv_zero_divisor:
  assumes "math_cos R (math_radians R (delivery_center_lat a)) = 0" "0 < num_shipments a"
  shows "generate_shipments_csv R clock fstr a g0 = Inl ZeroDivisionError"
proof -
  from assms(2) have u: "[0 ..< nat (num_shipments a)] = 0 # [1 ..< nat (num_shipments a)]"
    by (simp add: upt_conv_Cons)
  have "\<And>g. generate_random_coords R (delivery_center_lat a) (delivery_center_lon a)
          (square_size_km a) g = Inl ZeroDivisionError"
    using assms(1) by (simp add: generate_random_coords_Inl)
  then show ?thesis
    by (simp add: generate_shipments_csv_def generate_shipments_rows_def u Let_def)
qed

text \<open>
  Claim C6, as the code has it. Coordinate sampling fails exactly when the cosine that the
  library computes for the centre is zero, and the error is then \<^verbatim>\<open>ZeroDivisionError\<close>; a
  run of the generator with at least one shipment ends with that error (nothing handles
  it, no file is written). With an exact library this happens at latitude 90 and -90. With
  doubles it does not: \<^verbatim>\<open>math.radians\<close> of 90 or -90 is short of a quarter turn, its cosine
  is not zero, and sampling returns a point.
\<close>

theorem pole_error_needs_zero_cosine:
  "(generate_random_coords R center_lat center_lon size_km g = Inl e \<longleftrightarrow>
      e = ZeroDivisionError \<and> math_cos R (math_radians R center_lat) = 0)
   \<and> (exact_math R \<and> (center_lat = 90 \<or> center_lat = - 90) \<longrightarrow>
        generate_random_coords R center_lat center_lon size_km g = Inl ZeroDivisionError)
   \<and> (math_cos R (math_radians R (delivery_center_lat a)) = 0 \<and> 0 < num_shipments a \<longrightarrow>
        generate_shipments_csv R clock fstr a g0 = Inl ZeroDivisionError)
   \<and> (center_lat = 90 \<or> center_lat = - 90 \<longrightarrow>
        math_cos double_source (math_radians double_source center_lat) \<noteq> 0 \<and>
        (\<exists>p n'. generate_random_coords double_source center_lat center_lon size_km n
                  = Inr (p, n')))"
proof (intro conjI impI)
  show "generate_random_coords R center_lat center_lon size_km g = Inl e \<longleftrightarrow>
      e = ZeroDivisionError \<and> math_cos R (math_radians R center_lat) = 0"
    by (rule generate_random_coords_Inl)
next
  assume "exact_math R \<and> (center_lat = 90 \<or> center_lat = - 90)"
  then have "lon_divisor R center_lat = 0"
    using lon_divisor_exact_pole [of R] by auto
  then show "generate_random_coords R center_lat center_lon size_km g = Inl ZeroDivisionError"
    by (simp add: generate_random_coords_Inl lon_divisor_def)
next
  assume "math_cos R (math_radians R (delivery_center_lat a)) = 0 \<and> 0 < num_shipments a"
  then show "generate_shipments_csv R clock fstr a g0 = Inl ZeroDivisionError"
    by (simp add: generate_shipments_csv_zero_divisor)
next
  assume "center_lat = 90 \<or> center_lat = - 90"
  then have d: "lon_divisor double_source center_lat \<noteq> 0"
    using lon_divisor_double_pole by auto
  then show "math_cos double_source (math_radians double_source center_lat) \<noteq> 0"
    by (simp add: lon_divisor_def)
  from generate_random_coords_succeeds [OF d]
  show "\<exists>p n'. generate_random_coords double_source center_lat center_lon size_km n = Inr (p, n')"
    by blast
qed

theorem pole_error_needs_zero_cosine_witness:
  "exact_math test_source \<and>
   generate_random_coords test_source 90 26.0999251 20 (42::nat) = Inl ZeroDivisionError \<and>
   math_cos test_source (math_radians test_source (delivery_center_lat polar_args)) = 0 \<and>
   0 < num_shipments polar_args \<and>
   generate_shipments_csv test_source test_clock test_fstr polar_args (0::nat)
     = Inl ZeroDivisionError \<and>
   math_cos double_source (math_radians double_source 90) \<noteq> 0 \<and>
   (\<exists>p n'. generate_random_coords double_source 90 26.0999251 20 (42::nat) = Inr (p, n'))"
proof -
  note T = pole_error_needs_zero_cosine [where R = test_source and center_lat = 90
      and center_lon = "26.0999251" and size_km = 20 and g = "42::nat" and n = "42::nat"
      and a = polar_args and clock = test_clock and fstr = test_fstr and ?g0.0 = "0::nat"]
  have z: "math_cos test_source (math_radians test_source (delivery_center_lat polar_args)) = 0"
    by (simp add: polar_args_def test_source_def radians_def)
  have n: "0 < num_shipments polar_args" by (simp add: polar_args_def test_args_def)
  from T exact_math_test_source
  have 1: "generate_random_coords test_source 90 26.0999251 20 (42::nat) = Inl ZeroDivisionError"
    by blast
  from T z n
  have 2: "generate_shipments_csv test_source test_clock test_fstr polar_args (0::nat)
     = Inl ZeroDivisionError" by blast
  from T have 3: "math_cos double_source (math_radians double_source 90) \<noteq> 0 \<and>
      (\<exists>p n'. generate_random_coords double_source 90 26.0999251 20 (42::nat) = Inr (p, n'))"
    by blast
  from 1 2 3 z n exact_math_test_source show ?thesis by blast
qed

text \<open>
  In doubles, at the poles: \<^verbatim>\<open>math.radians(90.0)\<close> is \<open>1.5707963267948966\<close>, less than
  \<open>pi / 2\<close>, its cosine is positive, sampling returns a point at latitude 90 and at
  latitude -90, and the run of the generator centred on the pole writes its file.
\<close>

theorem sampling_at_the_pole_returns:
  "isl (generate_random_coords double_source 90 26.0999251 20 (42::nat)) = False \<and>
   isl (generate_random_coords double_source (- 90) 26.0999251 20 (42::nat)) = False \<and>
   delivery_center_lat polar_args = 90 \<and>
   isl (generate_shipments_csv double_source test_clock test_fstr polar_args (0::nat)) = False \<and>
   math_radians double_source 90 = HALF_PI_DOUBLE \<and> HALF_PI_DOUBLE < pi / 2 \<and>
   0 < cos HALF_PI_DOUBLE"
proof -
  from generate_random_coords_succeeds [OF lon_divisor_double_pole(1)]
  have 1: "isl (generate_random_coords double_source 90 26.0999251 20 (42::nat)) = False"
    by (metis sum.disc(2))
  from generate_random_coords_succeeds [OF lon_divisor_double_pole(2)]
  have 2: "isl (generate_random_coords double_source (- 90) 26.0999251 20 (42::nat)) = False"
    by (metis sum.disc(2))
  have p: "delivery_center_lat polar_args = 90" "max_pallets polar_args = 10"
    "pickup_hour polar_args = Some 8" "num_shipments polar_args = 2"
    by (simp_all add: polar_args_def test_args_def)
  have c: "\<forall>i < nat (num_shipments polar_args).
         valid_datetime (test_clock i) \<and> dt_ordinal (test_clock i) + 3 \<le> MAXORDINAL"
    using valid_test_clock by (simp add: test_clock_def MAXORDINAL_def)
  have "\<exists>rows. generate_shipments_rows double_source test_clock test_fstr polar_args (0::nat)
      = Inr rows"
    using c lon_divisor_double_pole(1)
    by (intro generate_shipments_rows_succeed rnd_in_range_double_source) (simp_all add: p)
  then obtain rows where "generate_shipments_rows double_source test_clock test_fstr polar_args
      (0::nat) = Inr rows" ..
  from generate_shipments_csv_written [OF this]
  have 3: "isl (generate_shipments_csv double_source test_clock test_fstr polar_args (0::nat))
      = False" by auto
  have 4: "HALF_PI_DOUBLE < pi / 2"
    using pi_lower_bound by (simp add: HALF_PI_DOUBLE_def)
  from 1 2 3 4 p(1) double_radians_90(1) cos_double_half_pi_pos show ?thesis by blast
qed

end
